theory Spec2Isabelle
  imports Main
begin

section \<open>Python exceptions and printed messages\<close>

text \<open>
  The exceptions that the functions of \<^verbatim>\<open>main.py\<close> can meet.  \<open>SpinnakerException\<close> is the
  driver's exception class (the only one the source catches, apart from \<open>NameError\<close> in
  \<^verbatim>\<open>capture\<close>); \<open>ValueError\<close> is raised by \<^verbatim>\<open>capture\<close> itself; \<open>IndexError\<close> comes from list
  indexing; \<open>UnboundLocalError\<close> (a subclass of \<open>NameError\<close>) from reading the local variable
  \<^verbatim>\<open>gain\<close> before any assignment.
\<close>

datatype exn = SpinnakerException | ValueError | IndexError | UnboundLocalError

text \<open>The stored value of a feature node: an integer (enumeration codes, width, height) or
  the text handed to \<^verbatim>\<open>SetValue\<close> for the gain (the source passes the field of the
  configuration file as it was read, a \<^verbatim>\<open>str\<close>).\<close>

datatype node_value = IntVal int | TextVal string

text \<open>One constructor for each \<^verbatim>\<open>print\<close> of the modelled functions, with the values that
  are formatted into the message.\<close>

datatype msg =
    Msg_set_to string string        \<comment> \<open>\<^verbatim>\<open>"{setting} set to {choice}"\<close>\<close>
  | Msg_not_available string        \<comment> \<open>\<^verbatim>\<open>"{x} is not available..."\<close>\<close>
  | Msg_error exn                   \<comment> \<open>\<^verbatim>\<open>"Error: %s" % ex\<close>\<close>
  | Msg_set_gain string             \<comment> \<open>\<^verbatim>\<open>"Set gain to {}"\<close>\<close>
  | Msg_unable_gain                 \<comment> \<open>\<^verbatim>\<open>"Unable to set Gain (float retrieval). Aborting..."\<close>\<close>
  | Msg_unable_gain_auto_entry      \<comment> \<open>\<^verbatim>\<open>"Unable to set Gain Auto (entry retrieval). Aborting..."\<close>\<close>
  | Msg_unable_gain_auto_enum       \<comment> \<open>\<^verbatim>\<open>"Unable to set Gain Auto (enumeration retrieval). Aborting..."\<close>\<close>
  | Msg_extent_set string node_value  \<comment> \<open>\<^verbatim>\<open>"Width set to %i..."\<close>, \<^verbatim>\<open>"Height set to %i..."\<close>\<close>
  | Msg_extent_not_available string   \<comment> \<open>\<^verbatim>\<open>"Width not available..."\<close>, \<^verbatim>\<open>"Height not available..."\<close>\<close>
  | Msg_device_information          \<comment> \<open>\<^verbatim>\<open>"*** DEVICE INFORMATION ***"\<close>\<close>
  | Msg_acquiring                   \<comment> \<open>\<^verbatim>\<open>"Acquiring images..."\<close>\<close>
  | Msg_serial_retrieved string     \<comment> \<open>\<^verbatim>\<open>"Device serial number retrieved as %s..."\<close>\<close>
  | Msg_incomplete int              \<comment> \<open>\<^verbatim>\<open>"Image incomplete with image status %d ..."\<close>\<close>
  | Msg_grabbed nat int int         \<comment> \<open>\<^verbatim>\<open>"Grabbed Image %d, width = %d, height = %d"\<close>\<close>
  | Msg_saved string                \<comment> \<open>\<^verbatim>\<open>"Image saved at %s"\<close>\<close>
  | Msg_blank                       \<comment> \<open>\<^verbatim>\<open>print("")\<close>\<close>
  | Msg_configuring string          \<comment> \<open>\<^verbatim>\<open>"*** CONFIGURING CAMERA %s ***"\<close>\<close>
  | Msg_gain_undefined string       \<comment> \<open>\<^verbatim>\<open>"Gain isn't defined for {}"\<close>\<close>
  | Msg_num_cameras nat             \<comment> \<open>\<^verbatim>\<open>"Number of cameras detected: %d"\<close>\<close>
  | Msg_not_enough_cameras          \<comment> \<open>\<^verbatim>\<open>"Not enough cameras!"\<close>\<close>
  | Msg_camera nat                  \<comment> \<open>\<^verbatim>\<open>print(cam)\<close>\<close>

section \<open>The configuration lookup of \<^verbatim>\<open>capture\<close>\<close>

text \<open>\<^verbatim>\<open>str.split(sep)\<close> for a one-character separator: the fields between the separators,
  always at least one.\<close>

fun split_on :: "char \<Rightarrow> string \<Rightarrow> string list" where
  "split_on sep [] = [[]]"
| "split_on sep (x # xs) =
     (if x = sep then [] # split_on sep xs
      else (case split_on sep xs of
              [] \<Rightarrow> [[x]]
            | y # ys \<Rightarrow> (x # y) # ys))"

definition TAB :: char where
  "TAB = CHR 0x09"

definition NL :: char where
  "NL = CHR 0x0A"

text \<open>\<^verbatim>\<open>xs[i]\<close> for a non-negative index: \<open>IndexError\<close> out of range.\<close>

definition index :: "'a list \<Rightarrow> nat \<Rightarrow> exn + 'a" where
  "index xs i = (if i < length xs then Inr (xs ! i) else Inl IndexError)"

text \<open>
  The loop of \<^verbatim>\<open>capture\<close> over the lines of \<^verbatim>\<open>input.tsv\<close> (lines 453 to 459):
  \<^verbatim>\<open>
  for i, line in enumerate(lines):
      if line.split("\t")[0] == "DeviceSerialNumber":
          if line.split("\t")[1] == serial_number:
              if lines[i + 1].split("\t")[0] == "Gain":
                  gain = lines[i + 1].split("\t")[1][:-1]
              else:
                  raise ValueError("Gain should follow serial number")
  \<close>
  The recursion is over the lines from \<open>line\<close> on, so that \<^verbatim>\<open>lines[i + 1]\<close> is the head of
  \<open>rest\<close>.  The variable \<^verbatim>\<open>gain\<close> is \<open>None\<close> while it is unbound; the loop starts from the
  binding that the enclosing loop over the cameras left.
\<close>

fun lookup_gain :: "string list \<Rightarrow> string \<Rightarrow> string option \<Rightarrow> exn + string option" where
  "lookup_gain [] serial_number gain = Inr gain"
| "lookup_gain (line # rest) serial_number gain =
     (if hd (split_on TAB line) = ''DeviceSerialNumber'' then
        (case index (split_on TAB line) 1 of
           Inl e \<Rightarrow> Inl e
         | Inr field \<Rightarrow>
             if field = serial_number then
               (case index rest 0 of
                  Inl e \<Rightarrow> Inl e
                | Inr next_line \<Rightarrow>
                    if hd (split_on TAB next_line) = ''Gain'' then
                      (case index (split_on TAB next_line) 1 of
                         Inl e \<Rightarrow> Inl e
                       | Inr v \<Rightarrow> lookup_gain rest serial_number (Some (butlast v)))
                    else Inl ValueError)
             else lookup_gain rest serial_number gain)
      else lookup_gain rest serial_number gain)"

text \<open>The lines that \<^verbatim>\<open>readlines()\<close> returns for the file contents
  \<^verbatim>\<open>"DeviceSerialNumber\tABC123\nGain\t12.5\n"\<close>.\<close>

definition example_lines :: "string list" where
  "example_lines =
     [''DeviceSerialNumber'' @ [TAB] @ ''ABC123'' @ [NL], ''Gain'' @ [TAB] @ ''12.5'' @ [NL]]"

section \<open>The simulated driver\<close>

text \<open>
  The PySpin driver is outside the repository.  It is modelled as a deterministic device
  simulator: each camera has a feature tree whose nodes carry availability, readability and
  writability flags and a stored value, and a queue of frames it will deliver.  Every call
  that reaches the hardware is recorded in a trace together with its outcome, and may raise
  \<open>SpinnakerException\<close>: whether it does is decided by \<open>faults\<close>, an arbitrary function of the
  events so far, the camera and the call.
\<close>

record feature =
  available :: bool
  readable :: bool
  writable :: bool
  display_name :: string

record enum_entry = feature +
  int_value :: int

record node = feature +
  stored :: node_value
  maximum :: int
  entries :: "string \<Rightarrow> enum_entry option"

record image =
  incomplete :: bool
  image_status :: int
  image_width :: int
  image_height :: int

text \<open>\<open>tl_serial\<close> is the value of the transport-layer node \<^verbatim>\<open>DeviceSerialNumber\<close>, \<open>None\<close> when
  that node is missing, unavailable or unreadable.  \<open>held\<close> counts the frames retrieved from
  the device buffer and not yet released.\<close>

record camera =
  tl_serial :: "string option"
  nodemap :: "string \<Rightarrow> node option"
  frames :: "image list"
  held :: nat

datatype call =
    Init | DeInit | BeginAcquisition | EndAcquisition
  | GetNextImage
  | Save string                     \<comment> \<open>\<^verbatim>\<open>image_result.Save(path, PySpin.PNG)\<close>\<close>
  | Release                         \<comment> \<open>\<^verbatim>\<open>image_result.Release()\<close>\<close>
  | EntryGetValue string string     \<comment> \<open>\<^verbatim>\<open>GetValue()\<close> of the entry \<open>choice\<close> of the enumeration \<open>setting\<close>\<close>
  | SetIntValue string int          \<comment> \<open>\<^verbatim>\<open>SetIntValue(code)\<close> on the enumeration node of that name\<close>
  | GetMax string
  | SetValue string node_value      \<comment> \<open>\<^verbatim>\<open>SetValue(v)\<close> on the integer or float node of that name\<close>
  | GetValue string
  | DeviceInformation               \<comment> \<open>the reads of \<^verbatim>\<open>print_device_info\<close>\<close>

datatype outcome = Ok | Raised

datatype event = Call nat call outcome | Print msg

record world =
  num_cameras :: nat
  cams :: "nat \<Rightarrow> camera"
  faults :: "event list \<Rightarrow> nat \<Rightarrow> call \<Rightarrow> bool"
  trace :: "event list"

section \<open>Programs: state passing with exceptions\<close>

type_synonym 'a prog = "world \<Rightarrow> (exn + 'a) \<times> world"

definition ret :: "'a \<Rightarrow> 'a prog" where
  "ret x = (\<lambda>w. (Inr x, w))"

definition raise :: "exn \<Rightarrow> 'a prog" where
  "raise e = (\<lambda>w. (Inl e, w))"

definition bnd :: "'a prog \<Rightarrow> ('a \<Rightarrow> 'b prog) \<Rightarrow> 'b prog" where
  "bnd m f = (\<lambda>w. case m w of (Inl e, w') \<Rightarrow> (Inl e, w') | (Inr x, w') \<Rightarrow> f x w')"

text \<open>\<^verbatim>\<open>try: m  except PySpin.SpinnakerException as ex: h\<close>: every other exception passes.\<close>

definition catchS :: "'a prog \<Rightarrow> (exn \<Rightarrow> 'a prog) \<Rightarrow> 'a prog" where
  "catchS m h = (\<lambda>w. case m w of
       (Inl e, w') \<Rightarrow> (if e = SpinnakerException then h e w' else (Inl e, w'))
     | (Inr x, w') \<Rightarrow> (Inr x, w'))"

definition log :: "event \<Rightarrow> world \<Rightarrow> world" where
  "log e w = w\<lparr>trace := trace w @ [e]\<rparr>"

definition print :: "msg \<Rightarrow> unit prog" where
  "print m = (\<lambda>w. (Inr (), log (Print m) w))"

definition driver :: "nat \<Rightarrow> call \<Rightarrow> unit prog" where
  "driver c k = (\<lambda>w. if faults w (trace w) c k
                      then (Inl SpinnakerException, log (Call c k Raised) w)
                      else (Inr (), log (Call c k Ok) w))"

fun for_each :: "nat list \<Rightarrow> (nat \<Rightarrow> unit prog) \<Rightarrow> unit prog" where
  "for_each [] body = ret ()"
| "for_each (c # cs) body = bnd (body c) (\<lambda>_. for_each cs body)"

subsection \<open>Node access\<close>

text \<open>A node pointer is the node found under a name, \<open>None\<close> for the null pointer that
  \<^verbatim>\<open>GetNode\<close> and \<^verbatim>\<open>GetEntryByName\<close> give for an unknown name.  The three gating predicates
  are false on the null pointer; dereferencing it raises.\<close>

definition GetNode :: "nat \<Rightarrow> string \<Rightarrow> node option prog" where
  "GetNode c name = (\<lambda>w. (Inr (nodemap (cams w c) name), w))"

definition IsAvailable :: "'a feature_scheme option \<Rightarrow> bool" where
  "IsAvailable p = (case p of None \<Rightarrow> False | Some n \<Rightarrow> available n)"

definition IsReadable :: "'a feature_scheme option \<Rightarrow> bool" where
  "IsReadable p = (case p of None \<Rightarrow> False | Some n \<Rightarrow> readable n)"

definition IsWritable :: "'a feature_scheme option \<Rightarrow> bool" where
  "IsWritable p = (case p of None \<Rightarrow> False | Some n \<Rightarrow> writable n)"

definition GetDisplayName :: "'a feature_scheme option \<Rightarrow> string prog" where
  "GetDisplayName p = (case p of None \<Rightarrow> raise SpinnakerException | Some n \<Rightarrow> ret (display_name n))"

definition GetEntryByName :: "node option \<Rightarrow> string \<Rightarrow> enum_entry option prog" where
  "GetEntryByName p choice = (case p of None \<Rightarrow> raise SpinnakerException | Some n \<Rightarrow> ret (entries n choice))"

definition entry_GetValue :: "nat \<Rightarrow> string \<Rightarrow> string \<Rightarrow> enum_entry option \<Rightarrow> int prog" where
  "entry_GetValue c setting choice p =
     (case p of
        None \<Rightarrow> raise SpinnakerException
      | Some e \<Rightarrow> bnd (driver c (EntryGetValue setting choice)) (\<lambda>_. ret (int_value e)))"

text \<open>The only way a stored value changes: a write that the driver accepted.\<close>

definition store :: "nat \<Rightarrow> string \<Rightarrow> node_value \<Rightarrow> world \<Rightarrow> world" where
  "store c name v w =
     w\<lparr>cams := (cams w)(c := (cams w c)\<lparr>nodemap := (nodemap (cams w c))
          (name := map_option (\<lambda>n. n\<lparr>stored := v\<rparr>) (nodemap (cams w c) name))\<rparr>)\<rparr>"

definition node_SetIntValue :: "nat \<Rightarrow> string \<Rightarrow> node option \<Rightarrow> int \<Rightarrow> unit prog" where
  "node_SetIntValue c name p v =
     (case p of
        None \<Rightarrow> raise SpinnakerException
      | Some _ \<Rightarrow> bnd (driver c (SetIntValue name v)) (\<lambda>_ w. (Inr (), store c name (IntVal v) w)))"

definition node_SetValue :: "nat \<Rightarrow> string \<Rightarrow> node option \<Rightarrow> node_value \<Rightarrow> unit prog" where
  "node_SetValue c name p v =
     (case p of
        None \<Rightarrow> raise SpinnakerException
      | Some _ \<Rightarrow> bnd (driver c (SetValue name v)) (\<lambda>_ w. (Inr (), store c name v w)))"

definition node_GetMax :: "nat \<Rightarrow> string \<Rightarrow> node option \<Rightarrow> int prog" where
  "node_GetMax c name p =
     (case p of
        None \<Rightarrow> raise SpinnakerException
      | Some n \<Rightarrow> bnd (driver c (GetMax name)) (\<lambda>_. ret (maximum n)))"

definition node_GetValue :: "nat \<Rightarrow> string \<Rightarrow> node_value prog" where
  "node_GetValue c name =
     bnd (driver c (GetValue name)) (\<lambda>_ w.
       case nodemap (cams w c) name of
         None \<Rightarrow> (Inl SpinnakerException, w)
       | Some n \<Rightarrow> (Inr (stored n), w))"

subsection \<open>Frames\<close>

text \<open>\<^verbatim>\<open>cam.GetNextImage(timeout)\<close>: with no frame to deliver the call times out, which the
  driver reports as \<open>SpinnakerException\<close>.\<close>

definition cam_GetNextImage :: "nat \<Rightarrow> image prog" where
  "cam_GetNextImage c = (\<lambda>w.
     case frames (cams w c) of
       [] \<Rightarrow> (Inl SpinnakerException, log (Call c GetNextImage Raised) w)
     | img # queue \<Rightarrow>
         (case driver c GetNextImage w of
            (Inl e, w') \<Rightarrow> (Inl e, w')
          | (Inr _, w') \<Rightarrow>
              (Inr img, w'\<lparr>cams := (cams w')(c := (cams w' c)\<lparr>frames := queue,
                                                             held := held (cams w' c) + 1\<rparr>)\<rparr>)))"

definition image_Release :: "nat \<Rightarrow> unit prog" where
  "image_Release c =
     bnd (driver c Release) (\<lambda>_ w.
       (Inr (), w\<lparr>cams := (cams w)(c := (cams w c)\<lparr>held := held (cams w c) - 1\<rparr>)\<rparr>))"

section \<open>The functions of \<^verbatim>\<open>main.py\<close>\<close>

definition NUM_IMAGES :: nat where
  "NUM_IMAGES = 1"

text \<open>\<^verbatim>\<open>"%d" % i\<close> for a non-negative \<open>i\<close>.\<close>

function str_nat :: "nat \<Rightarrow> string" where
  "str_nat n = (if n < 10 then [''0123456789'' ! n]
                else str_nat (n div 10) @ [''0123456789'' ! (n mod 10)])"
  by pat_completeness auto
termination
  by (relation "measure id") auto

declare str_nat.simps [simp del]

text \<open>\<^verbatim>\<open>change_enum_setting(cam, setting, choice)\<close>, lines 40 to 69.\<close>

definition change_enum_setting :: "nat \<Rightarrow> string \<Rightarrow> string \<Rightarrow> unit prog" where
  "change_enum_setting c setting choice =
     catchS
       (bnd (GetNode c setting) (\<lambda>setting_ptr.
          if IsAvailable setting_ptr \<and> IsWritable setting_ptr then
            bnd (GetEntryByName setting_ptr choice) (\<lambda>choice_ptr.
              if IsAvailable choice_ptr \<and> IsReadable choice_ptr then
                bnd (entry_GetValue c setting choice choice_ptr) (\<lambda>choice_value.
                bnd (node_SetIntValue c setting setting_ptr choice_value) (\<lambda>_.
                bnd (GetDisplayName setting_ptr) (\<lambda>s.
                bnd (GetDisplayName choice_ptr) (\<lambda>ch.
                print (Msg_set_to s ch)))))
              else
                bnd (GetDisplayName choice_ptr) (\<lambda>ch. print (Msg_not_available ch)))
          else
            bnd (GetDisplayName setting_ptr) (\<lambda>s. print (Msg_not_available s))))
       (\<lambda>ex. print (Msg_error ex))"

text \<open>\<^verbatim>\<open>change_gain(cam, gain)\<close>, lines 72 to 100.  It has no handler of its own.\<close>

definition change_gain :: "nat \<Rightarrow> string \<Rightarrow> unit prog" where
  "change_gain c gain =
     bnd (GetNode c ''GainAuto'') (\<lambda>node_gain_auto.
       if IsAvailable node_gain_auto \<and> IsWritable node_gain_auto then
         bnd (GetEntryByName node_gain_auto ''Off'') (\<lambda>entry_gain_auto_off.
           if IsAvailable entry_gain_auto_off \<and> IsReadable entry_gain_auto_off then
             bnd (entry_GetValue c ''GainAuto'' ''Off'' entry_gain_auto_off) (\<lambda>gain_auto_off.
             bnd (node_SetIntValue c ''GainAuto'' node_gain_auto gain_auto_off) (\<lambda>_.
             bnd (GetNode c ''Gain'') (\<lambda>node_gain.
               if IsAvailable node_gain \<and> IsWritable node_gain then
                 bnd (node_SetValue c ''Gain'' node_gain (TextVal gain)) (\<lambda>_.
                 print (Msg_set_gain gain))
               else print Msg_unable_gain)))
           else print Msg_unable_gain_auto_entry)
       else print Msg_unable_gain_auto_enum)"

text \<open>The two blocks of \<^verbatim>\<open>configure_camera\<close> that set the width (lines 166 to 174) and the
  height (lines 181 to 188) to the node's maximum; they differ in the node name only.\<close>

definition set_max_extent :: "nat \<Rightarrow> string \<Rightarrow> unit prog" where
  "set_max_extent c name =
     bnd (GetNode c name) (\<lambda>node_ptr.
       if IsAvailable node_ptr \<and> IsWritable node_ptr then
         bnd (node_GetMax c name node_ptr) (\<lambda>to_set.
         bnd (node_SetValue c name node_ptr (IntVal to_set)) (\<lambda>_.
         bnd (node_GetValue c name) (\<lambda>v.
         print (Msg_extent_set name v))))
       else print (Msg_extent_not_available name))"

text \<open>The body of the \<^verbatim>\<open>try\<close> of \<^verbatim>\<open>configure_camera\<close>, lines 119 to 211; \<^verbatim>\<open>result\<close> is
  assigned once, to \<^verbatim>\<open>True\<close>.\<close>

definition configure_body :: "nat \<Rightarrow> string \<Rightarrow> bool prog" where
  "configure_body c gain =
     bnd (change_enum_setting c ''PixelFormat'' ''Mono16'') (\<lambda>_.
     bnd (set_max_extent c ''Width'') (\<lambda>_.
     bnd (set_max_extent c ''Height'') (\<lambda>_.
     bnd (change_enum_setting c ''TriggerMode'' ''Off'') (\<lambda>_.
     bnd (change_enum_setting c ''TriggerSource'' ''Line3'') (\<lambda>_.
     bnd (change_enum_setting c ''TriggerMode'' ''On'') (\<lambda>_.
     bnd (change_enum_setting c ''SensorShutterMode'' ''GlobalReset'') (\<lambda>_.
     bnd (change_gain c gain) (\<lambda>_.
     bnd (change_enum_setting c ''AcquisitionMode'' ''SingleFrame'') (\<lambda>_.
     ret True)))))))))"

definition configure_camera :: "nat \<Rightarrow> string \<Rightarrow> bool prog" where
  "configure_camera c gain =
     catchS (configure_body c gain)
            (\<lambda>ex. bnd (print (Msg_error ex)) (\<lambda>_. ret False))"

text \<open>\<^verbatim>\<open>print_device_info(nodemap)\<close>, lines 220 to 263.  The listing of the features of the
  category node is one driver call; the function is \<^verbatim>\<open>False\<close> exactly when it raised.\<close>

definition print_device_info :: "nat \<Rightarrow> bool prog" where
  "print_device_info c =
     bnd (print Msg_device_information) (\<lambda>_.
     catchS (bnd (driver c DeviceInformation) (\<lambda>_. ret True))
            (\<lambda>ex. bnd (print (Msg_error ex)) (\<lambda>_. ret False)))"

text \<open>The body of the inner \<^verbatim>\<open>try\<close> of \<^verbatim>\<open>acquire_images\<close> for frame \<open>i\<close>, lines 337 to 409.\<close>

definition frame_body :: "nat \<Rightarrow> string \<Rightarrow> string \<Rightarrow> nat \<Rightarrow> unit prog" where
  "frame_body c directory device_serial_number i =
     bnd (cam_GetNextImage c) (\<lambda>image_result.
       if incomplete image_result then
         print (Msg_incomplete (image_status image_result))
       else
         bnd (print (Msg_grabbed i (image_width image_result) (image_height image_result))) (\<lambda>_.
         let filename =
               (if device_serial_number \<noteq> []
                then ''RatKingReigns-'' @ device_serial_number @ ''-'' @ str_nat i @ ''.png''
                else ''RatKingReigns-'' @ str_nat i @ ''.png'')
         in
         bnd (driver c (Save (directory @ ''/'' @ filename))) (\<lambda>_.
         bnd (print (Msg_saved filename)) (\<lambda>_.
         bnd (image_Release c) (\<lambda>_.
         print Msg_blank)))))"

text \<open>The loop \<^verbatim>\<open>for i in range(NUM_IMAGES)\<close>, lines 324 to 414.  The result is \<open>Some b\<close> when
  the handler executed \<^verbatim>\<open>return b\<close>, \<open>None\<close> when the loop ran to its end.\<close>

fun image_loop :: "nat \<Rightarrow> string \<Rightarrow> string \<Rightarrow> nat list \<Rightarrow> bool option prog" where
  "image_loop c directory device_serial_number [] = ret None"
| "image_loop c directory device_serial_number (i # later) =
     bnd (catchS
            (bnd (frame_body c directory device_serial_number i) (\<lambda>_. ret None))
            (\<lambda>ex. bnd (print (Msg_error ex)) (\<lambda>_.
                   bnd (driver c EndAcquisition) (\<lambda>_.
                   ret (Some False)))))
         (\<lambda>r. case r of
                Some b \<Rightarrow> ret (Some b)
              | None \<Rightarrow> image_loop c directory device_serial_number later)"

text \<open>\<^verbatim>\<open>acquire_images(cam, directory)\<close>, lines 266 to 420.  The image processor that the source
  creates and never uses is left out.\<close>

definition acquire_images :: "nat \<Rightarrow> string \<Rightarrow> bool prog" where
  "acquire_images c directory =
     catchS
       (bnd (print Msg_acquiring) (\<lambda>_.
        bnd (\<lambda>w. (case tl_serial (cams w c) of
                     None \<Rightarrow> ret []
                   | Some s \<Rightarrow> bnd (print (Msg_serial_retrieved s)) (\<lambda>_. ret s)) w)
            (\<lambda>device_serial_number.
        bnd (image_loop c directory device_serial_number [0..<NUM_IMAGES]) (\<lambda>r.
          case r of
            Some b \<Rightarrow> ret b
          | None \<Rightarrow> ret True))))
       (\<lambda>ex. bnd (print (Msg_error ex)) (\<lambda>_. ret False))"

text \<open>How a loop whose body may execute \<^verbatim>\<open>return\<close> ends.\<close>

datatype 'a ctl = Return bool | Fallthrough 'a

text \<open>\<^verbatim>\<open>PySpin.CStringPtr(nodemap_tldevice.GetNode("DeviceSerialNumber")).GetValue()\<close>,
  with no gating check in \<^verbatim>\<open>capture\<close>.\<close>

definition tl_GetValue :: "nat \<Rightarrow> string prog" where
  "tl_GetValue c = (\<lambda>w. case tl_serial (cams w c) of
                          None \<Rightarrow> (Inl SpinnakerException, w)
                        | Some s \<Rightarrow> (Inr s, w))"

definition lift :: "exn + 'a \<Rightarrow> 'a prog" where
  "lift r = (\<lambda>w. (r, w))"

text \<open>
  One iteration of the loop \<^verbatim>\<open>for i, cam in enumerate(cam_list)\<close> of \<^verbatim>\<open>capture\<close> from the
  read of the serial number to the call of \<^verbatim>\<open>configure_camera\<close>, lines 448 to 472.  It
  returns the binding of \<^verbatim>\<open>gain\<close> after the lookup and the result of \<^verbatim>\<open>configure_camera\<close>.
  Evaluating the argument \<^verbatim>\<open>gain\<close> of the call \<^verbatim>\<open>configure_camera(cam, gain)\<close> while it is
  unbound raises \<open>UnboundLocalError\<close>, as it did inside \<^verbatim>\<open>try: gain  except NameError:\<close>,
  where it was caught and reported.
\<close>

definition configure_one :: "string list \<Rightarrow> nat \<Rightarrow> string option \<Rightarrow> (string option \<times> bool) prog" where
  "configure_one lines c gain =
     bnd (tl_GetValue c) (\<lambda>serial_number.
     bnd (print (Msg_configuring serial_number)) (\<lambda>_.
     bnd (lift (lookup_gain lines serial_number gain)) (\<lambda>gain'.
     bnd (case gain' of
            None \<Rightarrow> print (Msg_gain_undefined serial_number)
          | Some _ \<Rightarrow> ret ()) (\<lambda>_.
     bnd (driver c Init) (\<lambda>_.
     bnd (case gain' of
            None \<Rightarrow> raise UnboundLocalError
          | Some g \<Rightarrow> configure_camera c g) (\<lambda>configured.
     ret (gain', configured)))))))"

text \<open>
  The loop \<^verbatim>\<open>for i, cam in enumerate(cam_list)\<close> of \<^verbatim>\<open>capture\<close>, lines 442 to 473.  The local
  variables \<^verbatim>\<open>gain\<close> and \<^verbatim>\<open>result\<close> live across the iterations.
\<close>

fun configure_loop :: "string list \<Rightarrow> nat list \<Rightarrow> string option \<Rightarrow> bool \<Rightarrow> (string option \<times> bool) ctl prog" where
  "configure_loop lines [] gain result = ret (Fallthrough (gain, result))"
| "configure_loop lines (c # cs) gain result =
     bnd (print_device_info c) (\<lambda>ok.
     bnd (configure_one lines c gain) (\<lambda>(gain', configured).
       if \<not> configured then ret (Return False)
       else configure_loop lines cs gain' (result \<and> ok)))"

fun acquire_loop :: "string \<Rightarrow> nat list \<Rightarrow> bool \<Rightarrow> bool prog" where
  "acquire_loop directory [] result = ret result"
| "acquire_loop directory (c # cs) result =
     bnd (acquire_images c directory) (\<lambda>ok. acquire_loop directory cs (result \<and> ok))"

text \<open>
  \<^verbatim>\<open>capture(cam_list)\<close>, lines 423 to 511.  The lines of \<^verbatim>\<open>input.tsv\<close> and the directory that
  was chosen and created are parameters.
\<close>

definition capture :: "string list \<Rightarrow> string \<Rightarrow> nat list \<Rightarrow> bool prog" where
  "capture lines directory cam_list =
     catchS
       (bnd (configure_loop lines cam_list None True) (\<lambda>r.
          case r of
            Return b \<Rightarrow> ret b
          | Fallthrough (gain, result) \<Rightarrow>
              bnd (for_each cam_list (\<lambda>c. driver c BeginAcquisition)) (\<lambda>_.
              bnd (acquire_loop directory cam_list result) (\<lambda>result'.
              bnd (for_each cam_list (\<lambda>c. bnd (driver c EndAcquisition) (\<lambda>_. driver c DeInit))) (\<lambda>_.
              ret result')))))
       (\<lambda>ex. bnd (print (Msg_error ex)) (\<lambda>_. ret False))"

text \<open>
  \<^verbatim>\<open>main()\<close>, lines 514 to 591, after the write-permission probe has succeeded.  It has no
  handler: an exception of any kind ends it.
\<close>

definition main :: "string list \<Rightarrow> string \<Rightarrow> bool prog" where
  "main lines directory = (\<lambda>w.
     bnd (print (Msg_num_cameras (num_cameras w))) (\<lambda>_.
       if num_cameras w = 0 then
         bnd (print Msg_not_enough_cameras) (\<lambda>_. ret False)
       else
         bnd (for_each [0..<num_cameras w] (\<lambda>c. bnd (driver c Init) (\<lambda>_. print (Msg_camera c)))) (\<lambda>_.
         bnd (capture lines directory [0..<num_cameras w]) (\<lambda>ok.
         bnd (for_each [0..<num_cameras w] (\<lambda>c. driver c DeInit)) (\<lambda>_.
         ret ok)))) w)"

text \<open>The part of \<^verbatim>\<open>main\<close> that precedes the call of \<^verbatim>\<open>capture\<close> when cameras were
  detected: the report of their number and the loop that initialises them.\<close>

definition startup :: "unit prog" where
  "startup = (\<lambda>w.
     bnd (print (Msg_num_cameras (num_cameras w))) (\<lambda>_.
     for_each [0..<num_cameras w] (\<lambda>c. bnd (driver c Init) (\<lambda>_. print (Msg_camera c)))) w)"

section \<open>Concrete devices and sessions\<close>

text \<open>The events that a run appended to the trace.\<close>

definition emitted :: "world \<Rightarrow> world \<Rightarrow> event list" where
  "emitted w w' = drop (length (trace w)) (trace w')"

definition no_faults :: "event list \<Rightarrow> nat \<Rightarrow> call \<Rightarrow> bool" where
  "no_faults = (\<lambda>tr c k. False)"

definition plain_entry :: "string \<Rightarrow> int \<Rightarrow> enum_entry" where
  "plain_entry name code =
     \<lparr>available = True, readable = True, writable = False, display_name = name, int_value = code\<rparr>"

definition enum_node :: "string \<Rightarrow> (string \<times> int) list \<Rightarrow> node" where
  "enum_node name choices =
     \<lparr>available = True, readable = True, writable = True, display_name = name,
      stored = IntVal 0, maximum = 0,
      entries = (\<lambda>choice. map_option (plain_entry choice) (map_of choices choice))\<rparr>"

definition value_node :: "string \<Rightarrow> node_value \<Rightarrow> int \<Rightarrow> node" where
  "value_node name v mx =
     \<lparr>available = True, readable = True, writable = True, display_name = name,
      stored = v, maximum = mx, entries = (\<lambda>choice. None)\<rparr>"

text \<open>A feature tree with every node that \<^verbatim>\<open>configure_camera\<close> touches.\<close>

definition bench_nodemap :: "string \<Rightarrow> node option" where
  "bench_nodemap = map_of
     [(''PixelFormat'', enum_node ''Pixel Format'' [(''Mono8'', 1), (''Mono16'', 2)]),
      (''Width'', value_node ''Width'' (IntVal 640) 2048),
      (''Height'', value_node ''Height'' (IntVal 480) 1536),
      (''TriggerMode'', enum_node ''Trigger Mode'' [(''Off'', 0), (''On'', 1)]),
      (''TriggerSource'', enum_node ''Trigger Source'' [(''Software'', 0), (''Line3'', 4)]),
      (''SensorShutterMode'', enum_node ''Sensor Shutter Mode'' [(''Global'', 1), (''GlobalReset'', 3)]),
      (''GainAuto'', enum_node ''Gain Auto'' [(''Off'', 0), (''Continuous'', 2)]),
      (''Gain'', value_node ''Gain'' (TextVal ''0.0'') 0),
      (''AcquisitionMode'', enum_node ''Acquisition Mode'' [(''Continuous'', 0), (''SingleFrame'', 1)])]"

definition good_frame :: image where
  "good_frame = \<lparr>incomplete = False, image_status = 0, image_width = 2048, image_height = 1536\<rparr>"

definition partial_frame :: image where
  "partial_frame = \<lparr>incomplete = True, image_status = 9, image_width = 2048, image_height = 1536\<rparr>"

definition bench_camera :: "string \<Rightarrow> image list \<Rightarrow> camera" where
  "bench_camera serial fs = \<lparr>tl_serial = Some serial, nodemap = bench_nodemap, frames = fs, held = 0\<rparr>"

text \<open>A camera whose feature tree has none of the nodes.\<close>

definition bare_camera :: "string \<Rightarrow> image list \<Rightarrow> camera" where
  "bare_camera serial fs = \<lparr>tl_serial = Some serial, nodemap = (\<lambda>name. None), frames = fs, held = 0\<rparr>"

definition session :: "camera list \<Rightarrow> (event list \<Rightarrow> nat \<Rightarrow> call \<Rightarrow> bool) \<Rightarrow> world" where
  "session cs f =
     \<lparr>num_cameras = length cs,
      cams = (\<lambda>c. if c < length cs then cs ! c else bare_camera [] []),
      faults = f, trace = []\<rparr>"

text \<open>Configuration lines whose serial-number lines carry a third, empty field, so that the
  second field is the bare identity and the comparison of the source can succeed.\<close>

definition block :: "string \<Rightarrow> string \<Rightarrow> string list" where
  "block serial gain =
     [''DeviceSerialNumber'' @ [TAB] @ serial @ [TAB] @ [NL], ''Gain'' @ [TAB] @ gain @ [NL]]"

text \<open>Two cameras with a frame each and a configuration block for each of them.\<close>

definition two_cameras :: world where
  "two_cameras = session [bare_camera ''A'' [good_frame], bare_camera ''B'' [good_frame]] no_faults"

definition two_blocks :: "string list" where
  "two_blocks = block ''A'' ''3.5'' @ block ''B'' ''7.0''"

text \<open>A configuration in which the serial-number line of \<open>A\<close> is followed by a line that is
  not a \<^verbatim>\<open>Gain\<close> line.\<close>

definition malformed_lines :: "string list" where
  "malformed_lines =
     [''DeviceSerialNumber'' @ [TAB] @ ''A'' @ [TAB] @ [NL], ''Exposure'' @ [TAB] @ ''5'' @ [NL]]
     @ block ''B'' ''7.0''"

text \<open>The same configuration in the format \<^verbatim>\<open>KEY\tVALUE\n\<close>: two fields to a line, the
  second with the newline that \<^verbatim>\<open>readlines()\<close> keeps.\<close>

definition spec_malformed_lines :: "string list" where
  "spec_malformed_lines =
     [''DeviceSerialNumber'' @ [TAB] @ ''A'' @ [NL], ''Exposure'' @ [TAB] @ ''5'' @ [NL],
      ''DeviceSerialNumber'' @ [TAB] @ ''B'' @ [NL], ''Gain'' @ [TAB] @ ''7.0'' @ [NL]]"

text \<open>A driver whose \<^verbatim>\<open>Save\<close> fails.\<close>

definition save_fails :: "event list \<Rightarrow> nat \<Rightarrow> call \<Rightarrow> bool" where
  "save_fails = (\<lambda>tr c k. case k of Save path \<Rightarrow> True | _ \<Rightarrow> False)"

text \<open>A driver for a camera \<open>c0\<close> that drops off the bus: it answers \<^verbatim>\<open>Init\<close>, the device
  information reads and \<^verbatim>\<open>BeginAcquisition\<close>, and fails every other call.\<close>

definition unplugged :: "nat \<Rightarrow> event list \<Rightarrow> nat \<Rightarrow> call \<Rightarrow> bool" where
  "unplugged c0 = (\<lambda>tr c k. c = c0 \<and> k \<noteq> Init \<and> k \<noteq> DeviceInformation \<and> k \<noteq> BeginAcquisition)"

text \<open>A driver that fails one call \<open>k0\<close> of one camera \<open>c0\<close> and answers every other call.\<close>

definition fails_only :: "nat \<Rightarrow> call \<Rightarrow> event list \<Rightarrow> nat \<Rightarrow> call \<Rightarrow> bool" where
  "fails_only c0 k0 = (\<lambda>tr c k. c = c0 \<and> k = k0)"

text \<open>A camera whose feature tree has the \<^verbatim>\<open>Width\<close> node only.\<close>

definition width_camera :: "string \<Rightarrow> image list \<Rightarrow> camera" where
  "width_camera serial fs =
     \<lparr>tl_serial = Some serial,
      nodemap = (\<lambda>name. if name = ''Width'' then Some (value_node ''Width'' (IntVal 640) 2048) else None),
      frames = fs, held = 0\<rparr>"

section \<open>Observations on runs\<close>

text \<open>What no call changes: the fault behaviour of the driver, the number of cameras, the
  serial numbers, and of every node everything but its stored value.\<close>

definition static :: "world \<Rightarrow> world" where
  "static w =
     w\<lparr>trace := [],
       cams := (\<lambda>c. (cams w c)\<lparr>frames := [], held := 0,
                 nodemap := (\<lambda>name. map_option (\<lambda>n. n\<lparr>stored := IntVal 0\<rparr>) (nodemap (cams w c) name))\<rparr>)\<rparr>"

text \<open>The gating check that precedes every write in the source.\<close>

definition gate_ok :: "world \<Rightarrow> nat \<Rightarrow> string \<Rightarrow> bool" where
  "gate_ok w c name \<longleftrightarrow>
     IsAvailable (nodemap (cams w c) name) \<and> IsWritable (nodemap (cams w c) name)"

fun is_write :: "nat \<Rightarrow> string \<Rightarrow> event \<Rightarrow> bool" where
  "is_write c name (Call c' (SetIntValue name' v) out) = (c' = c \<and> name' = name)"
| "is_write c name (Call c' (SetValue name' v) out) = (c' = c \<and> name' = name)"
| "is_write c name ev = False"

definition may_raise :: "world \<Rightarrow> nat \<Rightarrow> call \<Rightarrow> bool" where
  "may_raise s c k \<longleftrightarrow> (\<exists>tr. faults s tr c k)"

text \<open>
  \<open>steps s Q E R m\<close>: started in a world whose static part is \<open>s\<close>, the program \<open>m\<close> keeps
  the static part, only appends to the trace, appends only events that satisfy \<open>Q\<close>, leaves
  every node alone that it does not write, raises only exceptions that satisfy \<open>E\<close> and
  returns only values that satisfy \<open>R\<close>.
\<close>

definition steps ::
  "world \<Rightarrow> (event \<Rightarrow> bool) \<Rightarrow> (exn \<Rightarrow> bool) \<Rightarrow> ('a \<Rightarrow> bool) \<Rightarrow> 'a prog \<Rightarrow> bool" where
  "steps s Q E R m \<longleftrightarrow>
     (\<forall>w r w'. static w = s \<and> m w = (r, w') \<longrightarrow>
        static w' = s \<and>
        trace w' = trace w @ emitted w w' \<and>
        (\<forall>ev \<in> set (emitted w w'). Q ev) \<and>
        (\<forall>c name. (\<forall>ev \<in> set (emitted w w'). \<not> is_write c name ev) \<longrightarrow>
                    nodemap (cams w' c) name = nodemap (cams w c) name) \<and>
        (\<forall>e. r = Inl e \<longrightarrow> E e) \<and>
        (\<forall>x. r = Inr x \<longrightarrow> R x))"

text \<open>The calls that \<^verbatim>\<open>configure_camera\<close> can make on camera \<open>c\<close>: reads of entries, and
  reads and writes of nodes that passed the gating check.\<close>

fun config_call :: "world \<Rightarrow> nat \<Rightarrow> call \<Rightarrow> bool" where
  "config_call s c (EntryGetValue name choice) = gate_ok s c name"
| "config_call s c (SetIntValue name v) = gate_ok s c name"
| "config_call s c (SetValue name v) = gate_ok s c name"
| "config_call s c (GetMax name) = gate_ok s c name"
| "config_call s c (GetValue name) = gate_ok s c name"
| "config_call s c k = False"

fun config_event :: "world \<Rightarrow> nat \<Rightarrow> event \<Rightarrow> bool" where
  "config_event s c (Print m) = True"
| "config_event s c (Call c' k out) = (c' = c \<and> config_call s c k)"

text \<open>The events of the first loop of \<^verbatim>\<open>capture\<close> over the cameras in \<open>C\<close>.\<close>

fun setup_event :: "world \<Rightarrow> nat set \<Rightarrow> event \<Rightarrow> bool" where
  "setup_event s C (Print m) = True"
| "setup_event s C (Call c k out) =
     (c \<in> C \<and> (k = DeviceInformation \<or> k = Init \<or> config_call s c k))"

text \<open>The calls of \<^verbatim>\<open>acquire_images\<close>.\<close>

fun acquire_call :: "call \<Rightarrow> bool" where
  "acquire_call GetNextImage = True"
| "acquire_call (Save path) = True"
| "acquire_call Release = True"
| "acquire_call EndAcquisition = True"
| "acquire_call k = False"

fun acquire_event :: "nat set \<Rightarrow> event \<Rightarrow> bool" where
  "acquire_event C (Print m) = True"
| "acquire_event C (Call c k out) = (c \<in> C \<and> acquire_call k)"

fun is_retrieval :: "event \<Rightarrow> bool" where
  "is_retrieval (Call c GetNextImage out) = True"
| "is_retrieval ev = False"

fun is_begin :: "event \<Rightarrow> bool" where
  "is_begin (Call c BeginAcquisition out) = True"
| "is_begin ev = False"

text \<open>The calls whose failure makes \<^verbatim>\<open>print_device_info\<close> or \<^verbatim>\<open>acquire_images\<close> return
  \<^verbatim>\<open>False\<close> for a device, and the outcome of a device as it shows in the events of a run.\<close>

fun outcome_call :: "call \<Rightarrow> bool" where
  "outcome_call DeviceInformation = True"
| "outcome_call GetNextImage = True"
| "outcome_call (Save path) = True"
| "outcome_call Release = True"
| "outcome_call k = False"

fun failed_on :: "nat \<Rightarrow> event \<Rightarrow> bool" where
  "failed_on c (Call c' k Raised) = (c' = c \<and> outcome_call k)"
| "failed_on c ev = False"

definition device_ok :: "event list \<Rightarrow> nat \<Rightarrow> bool" where
  "device_ok es c \<longleftrightarrow> (\<forall>ev \<in> set es. \<not> failed_on c ev)"

text \<open>The acquisition-start barrier on the events of a run: every retrieval call comes after
  a successful \<^verbatim>\<open>BeginAcquisition\<close> on each camera of \<open>C\<close>.\<close>

definition barrier :: "nat set \<Rightarrow> event list \<Rightarrow> bool" where
  "barrier C es \<longleftrightarrow>
     (\<forall>i < length es. is_retrieval (es ! i) \<longrightarrow>
        (\<forall>c \<in> C. Call c BeginAcquisition Ok \<in> set (take i es)))"

section \<open>Properties\<close>

subsection \<open>The static part of the world\<close>

lemma static_log [simp]: "static (log e w) = static w"
  by (simp add: static_def log_def)

lemma static_store [simp]: "static (store c name v w) = static w"
  by (auto simp: static_def store_def fun_eq_iff map_option_case split: option.splits)

lemma static_idem [simp]: "static (static w) = static w"
  by (auto simp: static_def fun_eq_iff map_option_case split: option.splits)

lemma static_frames [simp]:
  "static (w\<lparr>cams := (cams w)(c := (cams w c)\<lparr>frames := fs, held := h\<rparr>)\<rparr>) = static w"
  by (auto simp: static_def fun_eq_iff)

lemma static_held [simp]:
  "static (w\<lparr>cams := (cams w)(c := (cams w c)\<lparr>held := h\<rparr>)\<rparr>) = static w"
  by (auto simp: static_def fun_eq_iff)

lemma static_fields [simp]:
  "faults (static w) = faults w" "num_cameras (static w) = num_cameras w"
  "tl_serial (cams (static w) c) = tl_serial (cams w c)"
  "trace (static w) = []"
  by (simp_all add: static_def)

lemma static_gates [simp]:
  "IsAvailable (nodemap (cams (static w) c) name) = IsAvailable (nodemap (cams w c) name)"
  "IsWritable (nodemap (cams (static w) c) name) = IsWritable (nodemap (cams w c) name)"
  "IsReadable (nodemap (cams (static w) c) name) = IsReadable (nodemap (cams w c) name)"
  "(nodemap (cams (static w) c) name = None) = (nodemap (cams w c) name = None)"
  by (simp_all add: static_def IsAvailable_def IsWritable_def IsReadable_def split: option.splits)

lemma gate_ok_static [simp]: "gate_ok (static w) c name = gate_ok w c name"
  by (simp add: gate_ok_def)

lemma may_raise_static [simp]: "may_raise (static w) c k = may_raise w c k"
  by (simp add: may_raise_def)

lemma log_fields [simp]:
  "trace (log e w) = trace w @ [e]" "cams (log e w) = cams w"
  "faults (log e w) = faults w" "num_cameras (log e w) = num_cameras w"
  by (simp_all add: log_def)

lemma store_fields [simp]:
  "trace (store c name v w) = trace w" "faults (store c name v w) = faults w"
  "num_cameras (store c name v w) = num_cameras w"
  by (simp_all add: store_def)

lemma store_other:
  "c' \<noteq> c \<or> name' \<noteq> name \<Longrightarrow> nodemap (cams (store c name v w) c') name' = nodemap (cams w c') name'"
  by (auto simp: store_def)

lemma gate_ok_Some: "IsAvailable p \<Longrightarrow> p \<noteq> None"
  by (cases p) (auto simp: IsAvailable_def)

subsection \<open>Emitted events\<close>

lemma emitted_self [simp]: "emitted w w = []"
  by (simp add: emitted_def)

lemma emitted_log [simp]: "emitted w (log e w) = [e]"
  by (simp add: emitted_def log_def)

lemma emitted_same_trace: "trace w' = trace w \<Longrightarrow> emitted v w' = emitted v w"
  by (simp add: emitted_def)

lemma emitted_append:
  "trace w1 = trace w @ emitted w w1 \<Longrightarrow> trace w2 = trace w1 @ emitted w1 w2 \<Longrightarrow>
   trace w2 = trace w @ emitted w w2 \<and> emitted w w2 = emitted w w1 @ emitted w1 w2"
  by (metis append.assoc append_eq_conv_conj emitted_def)

subsection \<open>Decomposing runs\<close>

lemma bnd_cases:
  assumes "bnd m f w = (r, w')"
  obtains (raised) e where "m w = (Inl e, w')" "r = Inl e"
        | (went_on) x w1 where "m w = (Inr x, w1)" "f x w1 = (r, w')"
  using assms by (auto simp: bnd_def split: prod.splits sum.splits)

lemma catchS_cases:
  assumes "catchS m h w = (r, w')"
  obtains (passed) "m w = (r, w')" "r \<noteq> Inl SpinnakerException"
        | (handled) w1 where "m w = (Inl SpinnakerException, w1)" "h SpinnakerException w1 = (r, w')"
  using assms by (auto simp: catchS_def split: prod.splits sum.splits if_splits)

subsection \<open>Rules for \<open>steps\<close>\<close>

lemma stepsD:
  assumes "steps s Q E R m" "static w = s" "m w = (r, w')"
  shows "static w' = s" "trace w' = trace w @ emitted w w'"
        "\<And>ev. ev \<in> set (emitted w w') \<Longrightarrow> Q ev"
        "\<And>c name. (\<forall>ev \<in> set (emitted w w'). \<not> is_write c name ev) \<Longrightarrow>
                    nodemap (cams w' c) name = nodemap (cams w c) name"
        "\<And>e. r = Inl e \<Longrightarrow> E e"
        "\<And>x. r = Inr x \<Longrightarrow> R x"
  using assms unfolding steps_def by blast+

lemma stepsI:
  assumes "\<And>w r w'. static w = s \<Longrightarrow> m w = (r, w') \<Longrightarrow>
        static w' = s \<and>
        trace w' = trace w @ emitted w w' \<and>
        (\<forall>ev \<in> set (emitted w w'). Q ev) \<and>
        (\<forall>c name. (\<forall>ev \<in> set (emitted w w'). \<not> is_write c name ev) \<longrightarrow>
                    nodemap (cams w' c) name = nodemap (cams w c) name) \<and>
        (\<forall>e. r = Inl e \<longrightarrow> E e) \<and>
        (\<forall>x. r = Inr x \<longrightarrow> R x)"
  shows "steps s Q E R m"
  using assms unfolding steps_def by blast

lemma steps_ret: "R x \<Longrightarrow> steps s Q E R (ret x)"
  by (simp add: steps_def ret_def)

lemma steps_raise: "E e \<Longrightarrow> steps s Q E R (raise e)"
  by (simp add: steps_def raise_def)

lemma steps_lift: "(\<And>e. r = Inl e \<Longrightarrow> E e) \<Longrightarrow> (\<And>x. r = Inr x \<Longrightarrow> R x) \<Longrightarrow> steps s Q E R (lift r)"
  by (simp add: steps_def lift_def)

lemma steps_print: "Q (Print m) \<Longrightarrow> R () \<Longrightarrow> steps s Q E R (print m)"
  by (simp add: steps_def print_def)

lemma steps_driver:
  "(\<And>out. Q (Call c k out)) \<Longrightarrow> (may_raise s c k \<Longrightarrow> E SpinnakerException) \<Longrightarrow> R () \<Longrightarrow>
   steps s Q E R (driver c k)"
  unfolding steps_def driver_def may_raise_def
  by (auto split: if_splits) blast

lemma steps_bnd':
  assumes "steps s Q E R' m" and "\<And>x. R' x \<Longrightarrow> steps s Q E R (f x)"
  shows "steps s Q E R (bnd m f)"
proof (rule stepsI)
  fix w r w'
  assume s: "static w = s" and run: "bnd m f w = (r, w')"
  from run show "static w' = s \<and>
        trace w' = trace w @ emitted w w' \<and>
        (\<forall>ev \<in> set (emitted w w'). Q ev) \<and>
        (\<forall>c name. (\<forall>ev \<in> set (emitted w w'). \<not> is_write c name ev) \<longrightarrow>
                    nodemap (cams w' c) name = nodemap (cams w c) name) \<and>
        (\<forall>e. r = Inl e \<longrightarrow> E e) \<and> (\<forall>x. r = Inr x \<longrightarrow> R x)"
  proof (cases rule: bnd_cases)
    case (raised e)
    from stepsD[OF assms(1) s raised(1)] raised(2) show ?thesis by blast
  next
    case (went_on x w1)
    note 1 = stepsD[OF assms(1) s went_on(1)]
    have "R' x" using 1(6) by simp
    note 2 = stepsD[OF assms(2)[OF this] 1(1) went_on(2)]
    from emitted_append[OF 1(2) 2(2)]
    have t: "trace w' = trace w @ emitted w w'" and e: "emitted w w' = emitted w w1 @ emitted w1 w'"
      by simp_all
    have "\<forall>ev\<in>set (emitted w w'). Q ev" using 1(3) 2(3) e by auto
    moreover have "\<forall>c name. (\<forall>ev\<in>set (emitted w w'). \<not> is_write c name ev) \<longrightarrow>
                          nodemap (cams w' c) name = nodemap (cams w c) name"
      using 1(4) 2(4) e by auto
    ultimately show ?thesis using 2(1) 2(5) 2(6) t by blast
  qed
qed

lemma steps_weaken:
  "steps s Q E R m \<Longrightarrow> (\<And>ev. Q ev \<Longrightarrow> Q' ev) \<Longrightarrow> (\<And>e. E e \<Longrightarrow> E' e) \<Longrightarrow> (\<And>x. R x \<Longrightarrow> R' x) \<Longrightarrow>
   steps s Q' E' R' m"
  unfolding steps_def by blast

lemma steps_bnd:
  assumes "steps s Q E (\<lambda>_. True) m" and "\<And>x. steps s Q E R (f x)"
  shows "steps s Q E R (bnd m f)"
  using assms by (rule steps_bnd')

lemma steps_catch:
  assumes "steps s Q E' R m"
      and "E' SpinnakerException \<Longrightarrow> steps s Q E R (h SpinnakerException)"
      and "\<And>e. E' e \<Longrightarrow> e \<noteq> SpinnakerException \<Longrightarrow> E e"
  shows "steps s Q E R (catchS m h)"
proof (rule stepsI)
  fix w r w'
  assume s: "static w = s" and run: "catchS m h w = (r, w')"
  from run show "static w' = s \<and>
        trace w' = trace w @ emitted w w' \<and>
        (\<forall>ev \<in> set (emitted w w'). Q ev) \<and>
        (\<forall>c name. (\<forall>ev \<in> set (emitted w w'). \<not> is_write c name ev) \<longrightarrow>
                    nodemap (cams w' c) name = nodemap (cams w c) name) \<and>
        (\<forall>e. r = Inl e \<longrightarrow> E e) \<and> (\<forall>x. r = Inr x \<longrightarrow> R x)"
  proof (cases rule: catchS_cases)
    case passed
    from stepsD[OF assms(1) s passed(1)] passed(2) assms(3) show ?thesis by blast
  next
    case (handled w1)
    note 1 = stepsD[OF assms(1) s handled(1)]
    have "E' SpinnakerException" using 1(5) by simp
    note 2 = stepsD[OF assms(2)[OF this] 1(1) handled(2)]
    from emitted_append[OF 1(2) 2(2)]
    have t: "trace w' = trace w @ emitted w w'" and e: "emitted w w' = emitted w w1 @ emitted w1 w'"
      by simp_all
    have "\<forall>ev\<in>set (emitted w w'). Q ev" using 1(3) 2(3) e by auto
    moreover have "\<forall>c name. (\<forall>ev\<in>set (emitted w w'). \<not> is_write c name ev) \<longrightarrow>
                          nodemap (cams w' c) name = nodemap (cams w c) name"
      using 1(4) 2(4) e by auto
    ultimately show ?thesis using 2(1) 2(5) 2(6) t by blast
  qed
qed

lemma steps_read:
  assumes "\<And>w0. static w0 = s \<Longrightarrow> steps s Q E R (g w0)"
  shows "steps s Q E R (\<lambda>w. g w w)"
  using assms unfolding steps_def by blast

lemma bnd_GetNode: "bnd (GetNode c name) f = (\<lambda>w. f (nodemap (cams w c) name) w)"
  by (simp add: bnd_def GetNode_def)

lemma steps_GetNode:
  assumes "\<And>w0. static w0 = s \<Longrightarrow> steps s Q E R (f (nodemap (cams w0 c) name))"
  shows "steps s Q E R (bnd (GetNode c name) f)"
  unfolding bnd_GetNode using assms by (rule steps_read)

lemma steps_GetDisplayName:
  "(p = None \<Longrightarrow> E SpinnakerException) \<Longrightarrow> (\<And>x. R x) \<Longrightarrow> steps s Q E R (GetDisplayName p)"
  by (cases p) (auto simp: GetDisplayName_def intro: steps_ret steps_raise)

lemma steps_GetEntryByName:
  "(p = None \<Longrightarrow> E SpinnakerException) \<Longrightarrow> (\<And>n. p = Some n \<Longrightarrow> R (entries n choice)) \<Longrightarrow>
   steps s Q E R (GetEntryByName p choice)"
  by (cases p) (auto simp: GetEntryByName_def intro: steps_ret steps_raise)

lemma steps_entry_GetValue:
  "(\<And>out. Q (Call c (EntryGetValue setting choice) out)) \<Longrightarrow>
   (p = None \<or> may_raise s c (EntryGetValue setting choice) \<Longrightarrow> E SpinnakerException) \<Longrightarrow>
   (\<And>x. R x) \<Longrightarrow>
   steps s Q E R (entry_GetValue c setting choice p)"
  by (cases p) (auto simp: entry_GetValue_def intro!: steps_ret steps_raise steps_bnd steps_driver)

lemma steps_node_GetMax:
  "(\<And>out. Q (Call c (GetMax name) out)) \<Longrightarrow>
   (p = None \<or> may_raise s c (GetMax name) \<Longrightarrow> E SpinnakerException) \<Longrightarrow>
   (\<And>x. R x) \<Longrightarrow>
   steps s Q E R (node_GetMax c name p)"
  by (cases p) (auto simp: node_GetMax_def intro!: steps_ret steps_raise steps_bnd steps_driver)

lemma steps_store:
  assumes "\<And>out. Q (Call c k out)"
      and "\<And>c' name'. is_write c' name' (Call c k Ok) = (c' = c \<and> name' = name)"
      and "may_raise s c k \<Longrightarrow> E SpinnakerException" "R ()"
  shows "steps s Q E R (bnd (driver c k) (\<lambda>_ w. (Inr (), store c name v w)))"
proof (rule stepsI)
  fix w r w'
  assume s: "static w = s" and run: "bnd (driver c k) (\<lambda>_ w. (Inr (), store c name v w)) w = (r, w')"
  show "static w' = s \<and>
        trace w' = trace w @ emitted w w' \<and>
        (\<forall>ev \<in> set (emitted w w'). Q ev) \<and>
        (\<forall>c name. (\<forall>ev \<in> set (emitted w w'). \<not> is_write c name ev) \<longrightarrow>
                    nodemap (cams w' c) name = nodemap (cams w c) name) \<and>
        (\<forall>e. r = Inl e \<longrightarrow> E e) \<and> (\<forall>x. r = Inr x \<longrightarrow> R x)"
  proof (cases "faults w (trace w) c k")
    case True
    with run have "r = Inl SpinnakerException" "w' = log (Call c k Raised) w"
      by (simp_all add: bnd_def driver_def)
    moreover have "may_raise s c k" using True s by (auto simp: may_raise_def)
    ultimately show ?thesis using assms s by simp
  next
    case False
    with run have r: "r = Inr ()" "w' = store c name v (log (Call c k Ok) w)"
      by (simp_all add: bnd_def driver_def)
    have e: "emitted w w' = [Call c k Ok]" using r by (simp add: emitted_def)
    show ?thesis using assms s r e by (auto simp: store_other)
  qed
qed

lemma steps_node_SetIntValue:
  "(\<And>out. Q (Call c (SetIntValue name v) out)) \<Longrightarrow>
   (p = None \<or> may_raise s c (SetIntValue name v) \<Longrightarrow> E SpinnakerException) \<Longrightarrow> R () \<Longrightarrow>
   steps s Q E R (node_SetIntValue c name p v)"
  by (cases p) (auto simp: node_SetIntValue_def intro!: steps_raise steps_store)

lemma steps_node_SetValue:
  "(\<And>out. Q (Call c (SetValue name v) out)) \<Longrightarrow>
   (p = None \<or> may_raise s c (SetValue name v) \<Longrightarrow> E SpinnakerException) \<Longrightarrow> R () \<Longrightarrow>
   steps s Q E R (node_SetValue c name p v)"
  by (cases p) (auto simp: node_SetValue_def intro!: steps_raise steps_store)

lemma steps_node_GetValue:
  assumes "\<And>out. Q (Call c (GetValue name) out)"
      and "nodemap (cams s c) name = None \<or> may_raise s c (GetValue name) \<Longrightarrow> E SpinnakerException"
      and "\<And>x. R x"
  shows "steps s Q E R (node_GetValue c name)"
proof (rule stepsI)
  fix w r w'
  assume s: "static w = s" and run: "node_GetValue c name w = (r, w')"
  have n: "(nodemap (cams w c) name = None) = (nodemap (cams s c) name = None)"
    using s by auto
  show "static w' = s \<and>
        trace w' = trace w @ emitted w w' \<and>
        (\<forall>ev \<in> set (emitted w w'). Q ev) \<and>
        (\<forall>c name. (\<forall>ev \<in> set (emitted w w'). \<not> is_write c name ev) \<longrightarrow>
                    nodemap (cams w' c) name = nodemap (cams w c) name) \<and>
        (\<forall>e. r = Inl e \<longrightarrow> E e) \<and> (\<forall>x. r = Inr x \<longrightarrow> R x)"
  proof (cases "faults w (trace w) c (GetValue name)")
    case True
    with run have "r = Inl SpinnakerException" "w' = log (Call c (GetValue name) Raised) w"
      by (simp_all add: node_GetValue_def bnd_def driver_def)
    moreover have "may_raise s c (GetValue name)" using True s by (auto simp: may_raise_def)
    ultimately show ?thesis using assms s by simp
  next
    case False
    with run have r: "w' = log (Call c (GetValue name) Ok) w"
      "r = (case nodemap (cams w c) name of None \<Rightarrow> Inl SpinnakerException | Some n \<Rightarrow> Inr (stored n))"
      by (auto simp: node_GetValue_def bnd_def driver_def split: option.splits)
    show ?thesis using assms s r n by (auto split: option.splits)
  qed
qed

lemma steps_if:
  "(b \<Longrightarrow> steps s Q E R m1) \<Longrightarrow> (\<not> b \<Longrightarrow> steps s Q E R m2) \<Longrightarrow> steps s Q E R (if b then m1 else m2)"
  by simp

lemma gate_ok_node: "gate_ok s c name \<Longrightarrow> nodemap (cams s c) name \<noteq> None"
  by (auto simp: gate_ok_def IsAvailable_def split: option.splits)

lemma steps_GetNode':
  assumes "\<And>p. IsAvailable p \<and> IsWritable p \<longrightarrow> gate_ok s c name \<Longrightarrow> steps s Q E R (f p)"
  shows "steps s Q E R (bnd (GetNode c name) f)"
proof (rule steps_GetNode)
  fix w0 assume "static w0 = s"
  then have "IsAvailable (nodemap (cams w0 c) name) \<and> IsWritable (nodemap (cams w0 c) name)
             \<longrightarrow> gate_ok s c name"
    by (auto simp: gate_ok_def)
  then show "steps s Q E R (f (nodemap (cams w0 c) name))" by (rule assms)
qed

lemma steps_change_enum_setting:
  assumes Q: "\<And>ev. config_event s c ev \<Longrightarrow> Q ev" and R: "R ()"
  shows "steps s Q E R (change_enum_setting c setting choice)"
  unfolding change_enum_setting_def
  apply (rule steps_catch[where E'="\<lambda>e. e = SpinnakerException"])
    apply (rule steps_GetNode')
    apply (intro steps_if steps_bnd steps_GetEntryByName steps_entry_GetValue
                 steps_node_SetIntValue steps_GetDisplayName steps_print)
  using R by (auto intro!: steps_print Q)

lemma steps_set_max_extent:
  assumes Q: "\<And>ev. config_event s c ev \<Longrightarrow> Q ev" and R: "R ()"
      and E: "\<And>k. may_raise s c k \<Longrightarrow> config_call s c k \<Longrightarrow> E SpinnakerException"
  shows "steps s Q E R (set_max_extent c name)"
  unfolding set_max_extent_def
  apply (rule steps_GetNode')
  apply (intro steps_if steps_bnd steps_node_GetMax steps_node_SetValue steps_node_GetValue steps_print)
  using R by (auto intro!: Q dest: gate_ok_Some gate_ok_node elim!: E)

lemma steps_change_gain:
  assumes Q: "\<And>ev. config_event s c ev \<Longrightarrow> Q ev" and R: "R ()"
      and E: "\<And>k. may_raise s c k \<Longrightarrow> config_call s c k \<Longrightarrow> E SpinnakerException"
  shows "steps s Q E R (change_gain c gain)"
  unfolding change_gain_def
  apply (rule steps_GetNode')
  apply (intro steps_if steps_GetNode' steps_bnd steps_GetEntryByName steps_entry_GetValue
                 steps_node_SetIntValue steps_node_SetValue steps_print)
  using R by (auto intro!: Q dest: gate_ok_Some gate_ok_node elim!: E)

lemma steps_configure_body:
  assumes Q: "\<And>ev. config_event s c ev \<Longrightarrow> Q ev" and R: "R True"
      and E: "\<And>k. may_raise s c k \<Longrightarrow> config_call s c k \<Longrightarrow> E SpinnakerException"
  shows "steps s Q E R (configure_body c gain)"
  unfolding configure_body_def
  by (intro steps_bnd steps_change_enum_setting steps_set_max_extent steps_change_gain steps_ret Q R E TrueI)

lemma steps_configure_camera:
  assumes Q: "\<And>ev. config_event s c ev \<Longrightarrow> Q ev" and R: "R True"
      and F: "\<And>k. may_raise s c k \<Longrightarrow> config_call s c k \<Longrightarrow> R False"
  shows "steps s Q E R (configure_camera c gain)"
  unfolding configure_camera_def
  apply (rule steps_catch[where E'="\<lambda>e. e = SpinnakerException \<and> (\<exists>k. may_raise s c k \<and> config_call s c k)"])
    apply (rule steps_configure_body)
  using Q R F by (auto intro!: steps_bnd steps_print steps_ret)

lemmas prog_defs = bnd_def ret_def raise_def catchS_def print_def driver_def lift_def
lemmas node_defs = GetNode_def GetEntryByName_def GetDisplayName_def entry_GetValue_def
  node_SetIntValue_def node_SetValue_def node_GetMax_def node_GetValue_def

lemma change_enum_setting_unavailable:
  assumes "\<not> (IsAvailable (nodemap (cams w c) setting) \<and> IsWritable (nodemap (cams w c) setting))"
  shows "change_enum_setting c setting choice w =
           (Inr (), log (Print (case nodemap (cams w c) setting of
                                  None \<Rightarrow> Msg_error SpinnakerException
                                | Some n \<Rightarrow> Msg_not_available (display_name n))) w)"
  using assms by (auto simp: change_enum_setting_def prog_defs node_defs split: option.splits)

lemma change_enum_setting_entry_unavailable:
  assumes "nodemap (cams w c) setting = Some n" "available n" "writable n"
      and "\<not> (IsAvailable (entries n choice) \<and> IsReadable (entries n choice))"
  shows "change_enum_setting c setting choice w =
           (Inr (), log (Print (case entries n choice of
                                  None \<Rightarrow> Msg_error SpinnakerException
                                | Some e \<Rightarrow> Msg_not_available (display_name e))) w)"
  using assms
  by (auto simp: change_enum_setting_def prog_defs node_defs IsAvailable_def IsWritable_def
           split: option.splits)

lemma change_enum_setting_success:
  assumes "nodemap (cams w c) setting = Some n" "available n" "writable n"
      and "entries n choice = Some e" "available e" "readable e"
      and "\<not> faults w (trace w) c (EntryGetValue setting choice)"
      and "\<not> faults w (trace w @ [Call c (EntryGetValue setting choice) Ok]) c (SetIntValue setting (int_value e))"
  shows "change_enum_setting c setting choice w =
           (Inr (), log (Print (Msg_set_to (display_name n) (display_name e)))
                      (store c setting (IntVal (int_value e))
                        (log (Call c (SetIntValue setting (int_value e)) Ok)
                          (log (Call c (EntryGetValue setting choice) Ok) w))))"
  using assms
  by (simp add: change_enum_setting_def prog_defs node_defs IsAvailable_def IsWritable_def IsReadable_def)

lemma change_enum_setting_events:
  assumes "change_enum_setting c setting choice w = (r, w')"
  shows "r = Inr ()"
    and "\<forall>ev \<in> set (emitted w w').
           (\<exists>m. ev = Print m) \<or> (\<exists>out. ev = Call c (EntryGetValue setting choice) out) \<or>
           (\<exists>n e out. nodemap (cams w c) setting = Some n \<and> available n \<and> writable n \<and>
                       entries n choice = Some e \<and> available e \<and> readable e \<and>
                       ev = Call c (SetIntValue setting (int_value e)) out)"
    and "map_option entries (nodemap (cams w' c) setting) = map_option entries (nodemap (cams w c) setting)"
  using assms
  by (auto simp: change_enum_setting_def prog_defs node_defs IsAvailable_def IsWritable_def IsReadable_def
                 emitted_def log_def store_def
           split: option.splits if_splits)



lemma gate_ok_store [simp]: "gate_ok (store c' name' v w) c name = gate_ok w c name"
  by (metis gate_ok_static static_store)

lemma gate_ok_log [simp]: "gate_ok (log e w) c name = gate_ok w c name"
  by (metis gate_ok_static static_log)



lemma steps_print_device_info:
  assumes "\<And>m. Q (Print m)" "\<And>out. Q (Call c DeviceInformation out)" "\<And>b. R b"
  shows "steps s Q E R (print_device_info c)"
  unfolding print_device_info_def
  apply (intro steps_bnd steps_print steps_catch[where E'="\<lambda>e. e = SpinnakerException"] steps_driver steps_ret)
  using assms by auto

lemma steps_tl_GetValue:
  assumes "E SpinnakerException" "\<And>x. R x"
  shows "steps s Q E R (tl_GetValue c)"
  using assms by (auto simp: steps_def tl_GetValue_def split: option.splits)

lemma steps_for_each:
  assumes "\<And>c. c \<in> set cs \<Longrightarrow> steps s Q E (\<lambda>_. True) (body c)" "R ()"
  shows "steps s Q E R (for_each cs body)"
  using assms by (induction cs) (auto intro!: steps_ret steps_bnd)

lemma steps_configure_one:
  assumes "\<And>ev. setup_event s {c} ev \<Longrightarrow> Q ev"
      and "\<And>e. E e" "\<And>x. R x"
  shows "steps s Q E R (configure_one lines c gain)"
proof -
  have Qc: "\<And>ev. config_event s c ev \<Longrightarrow> Q ev"
  proof -
    fix ev assume "config_event s c ev"
    then have "setup_event s {c} ev" by (cases ev) auto
    then show "Q ev" by (rule assms(1))
  qed
  have Qp: "\<And>m. Q (Print m)" by (rule assms(1)) simp
  have Qd: "\<And>out. Q (Call c Init out)"
    by (rule assms(1), simp)
  show ?thesis
    unfolding configure_one_def
    apply (intro steps_bnd steps_tl_GetValue steps_print steps_lift
                 steps_driver steps_ret assms(2) assms(3) Qp Qd TrueI)
     apply (auto split: option.splits intro!: steps_print steps_ret steps_raise steps_configure_camera
                 Qp Qc assms(2))
    done
qed

lemma steps_configure_loop:
  assumes "\<And>ev. setup_event s (set cs) ev \<Longrightarrow> Q ev"
      and "\<And>e. E e" "\<And>x. R x"
  shows "steps s Q E R (configure_loop lines cs gain result)"
  using assms
proof (induction cs arbitrary: gain result)
  case Nil
  then show ?case by (simp add: steps_ret)
next
  case (Cons c cs)
  have Qc: "\<And>ev. setup_event s {c} ev \<Longrightarrow> Q ev"
  proof -
    fix ev assume "setup_event s {c} ev"
    then have "setup_event s (set (c # cs)) ev" by (cases ev) auto
    then show "Q ev" by (rule Cons.prems(1))
  qed
  have Qcs: "\<And>ev. setup_event s (set cs) ev \<Longrightarrow> Q ev"
  proof -
    fix ev assume "setup_event s (set cs) ev"
    then have "setup_event s (set (c # cs)) ev" by (cases ev) auto
    then show "Q ev" by (rule Cons.prems(1))
  qed
  have Qp: "\<And>m. Q (Print m)" by (rule Cons.prems(1)) simp
  have Qd: "\<And>out. Q (Call c DeviceInformation out)"
    by (rule Cons.prems(1), simp)
  have IH: "\<And>gain result. steps s Q E R (configure_loop lines cs gain result)"
    by (rule Cons.IH[OF Qcs Cons.prems(2) Cons.prems(3)])
  show ?case
    unfolding configure_loop.simps
    apply (intro steps_bnd steps_print_device_info steps_configure_one Qc Qp Qd Cons.prems(2) TrueI)
    apply (auto intro!: steps_ret IH Cons.prems(3))
    done
qed

lemma steps_cam_GetNextImage:
  assumes "\<And>out. Q (Call c GetNextImage out)" "E SpinnakerException" "\<And>x. R x"
  shows "steps s Q E R (cam_GetNextImage c)"
proof (rule stepsI)
  fix w r w'
  assume s: "static w = s" and run: "cam_GetNextImage c w = (r, w')"
  show "static w' = s \<and>
        trace w' = trace w @ emitted w w' \<and>
        (\<forall>ev \<in> set (emitted w w'). Q ev) \<and>
        (\<forall>c name. (\<forall>ev \<in> set (emitted w w'). \<not> is_write c name ev) \<longrightarrow>
                    nodemap (cams w' c) name = nodemap (cams w c) name) \<and>
        (\<forall>e. r = Inl e \<longrightarrow> E e) \<and> (\<forall>x. r = Inr x \<longrightarrow> R x)"
    using run s assms
    by (auto simp: cam_GetNextImage_def prog_defs emitted_def log_def static_def fun_eq_iff
             split: list.splits if_splits)
qed

lemma steps_image_Release:
  assumes "\<And>out. Q (Call c Release out)" "E SpinnakerException" "R ()"
  shows "steps s Q E R (image_Release c)"
proof (rule stepsI)
  fix w r w'
  assume s: "static w = s" and run: "image_Release c w = (r, w')"
  show "static w' = s \<and>
        trace w' = trace w @ emitted w w' \<and>
        (\<forall>ev \<in> set (emitted w w'). Q ev) \<and>
        (\<forall>c name. (\<forall>ev \<in> set (emitted w w'). \<not> is_write c name ev) \<longrightarrow>
                    nodemap (cams w' c) name = nodemap (cams w c) name) \<and>
        (\<forall>e. r = Inl e \<longrightarrow> E e) \<and> (\<forall>x. r = Inr x \<longrightarrow> R x)"
    using run s assms
    by (auto simp: image_Release_def prog_defs emitted_def log_def static_def fun_eq_iff
             split: list.splits if_splits)
qed

lemma steps_frame_body:
  assumes "\<And>ev. acquire_event {c} ev \<Longrightarrow> Q ev" "E SpinnakerException" "R ()"
  shows "steps s Q E R (frame_body c directory sn i)"
  unfolding frame_body_def Let_def
  apply (intro steps_bnd steps_cam_GetNextImage steps_if steps_print steps_driver steps_image_Release)
  using assms by auto

lemma steps_image_loop:
  assumes "\<And>ev. acquire_event {c} ev \<Longrightarrow> Q ev" "E SpinnakerException" "\<And>x. R x"
  shows "steps s Q E R (image_loop c directory sn idx)"
proof (induction idx)
  case Nil
  show ?case using assms by (simp add: steps_ret)
next
  case (Cons i idx)
  show ?case
    unfolding image_loop.simps
    apply (rule steps_bnd)
     apply (rule steps_catch[where E'="\<lambda>e. e = SpinnakerException"])
       apply (intro steps_bnd steps_frame_body steps_ret TrueI)
    using assms Cons
    by (auto intro!: steps_bnd steps_print steps_driver steps_ret split: option.splits)
qed

lemma steps_read_serial:
  assumes "\<And>m. Q (Print m)" "\<And>x. R x"
  shows "steps s Q E R (\<lambda>w. (case tl_serial (cams w c) of
                                None \<Rightarrow> ret []
                              | Some s \<Rightarrow> bnd (print (Msg_serial_retrieved s)) (\<lambda>_. ret s)) w)"
  using assms by (auto simp: steps_def prog_defs split: option.splits)

lemma steps_acquire_images:
  assumes "\<And>ev. acquire_event {c} ev \<Longrightarrow> Q ev" "\<And>x. R x"
  shows "steps s Q E R (acquire_images c directory)"
  unfolding acquire_images_def
  apply (rule steps_catch[where E'="\<lambda>e. e = SpinnakerException"])
    apply (intro steps_bnd steps_print steps_read_serial steps_image_loop)
  using assms by (auto split: option.splits intro!: steps_ret steps_bnd steps_print)

lemma acquire_images_result:
  assumes "acquire_images c directory w = (r, w')"
  shows "r = Inr (device_ok (emitted w w') c)"
    and "\<exists>out. Call c GetNextImage out \<in> set (emitted w w')"
  using assms
  by (auto simp: acquire_images_def NUM_IMAGES_def frame_body_def cam_GetNextImage_def image_Release_def
                 prog_defs emitted_def log_def device_ok_def Let_def
           split: option.splits list.splits if_splits)

subsection \<open>Runs of programs that satisfy \<open>steps\<close>\<close>

lemma steps_trivial_weaken:
  "steps s Q E R m \<Longrightarrow> steps s (\<lambda>_. True) (\<lambda>_. True) (\<lambda>_. True) m"
  by (erule steps_weaken) simp_all

lemma run_append:
  assumes "steps (static w) Q E R m" "m w = (r, w1)"
  shows "trace w1 = trace w @ emitted w w1" "static w1 = static w"
        "\<forall>ev \<in> set (emitted w w1). Q ev"
  using stepsD[OF assms(1) refl assms(2)] by auto

lemma emitted_trans:
  assumes "trace w1 = trace w @ emitted w w1" "trace w2 = trace w1 @ emitted w1 w2"
  shows "emitted w w2 = emitted w w1 @ emitted w1 w2"
  using emitted_append[OF assms] by simp

lemma faults_static: "static w1 = static w \<Longrightarrow> faults w1 = faults w"
  by (metis static_fields(1))

lemma num_cameras_static: "static w1 = static w \<Longrightarrow> num_cameras w1 = num_cameras w"
  by (metis static_fields(2))

subsection \<open>Device outcomes\<close>

lemma device_ok_append [simp]: "device_ok (es1 @ es2) c \<longleftrightarrow> device_ok es1 c \<and> device_ok es2 c"
  by (auto simp: device_ok_def)

lemma device_ok_Nil [simp]: "device_ok [] c"
  by (simp add: device_ok_def)

lemma device_ok_acquire_other:
  "\<forall>ev \<in> set es. acquire_event C ev \<Longrightarrow> c \<notin> C \<Longrightarrow> device_ok es c"
  unfolding device_ok_def
proof
  fix ev assume a: "\<forall>ev \<in> set es. acquire_event C ev" "c \<notin> C" "ev \<in> set es"
  then have "acquire_event C ev" by blast
  with a(2) show "\<not> failed_on c ev" by (cases "(c, ev)" rule: failed_on.cases) auto
qed

lemma config_call_not_outcome: "config_call s c k \<Longrightarrow> \<not> outcome_call k"
  by (cases k) auto

lemma print_device_info_all_ok:
  assumes "print_device_info c w = (r, w')"
  shows "r = Inr (\<forall>c'. device_ok (emitted w w') c')"
  using assms
  by (auto simp: print_device_info_def prog_defs emitted_def log_def device_ok_def split: if_splits)

lemma acquire_images_all_ok:
  assumes "acquire_images c directory w = (r, w')"
  shows "r = Inr (\<forall>c'. device_ok (emitted w w') c')"
proof -
  have ev: "\<forall>ev \<in> set (emitted w w'). acquire_event {c} ev"
    using run_append(3)[OF steps_acquire_images[where Q="acquire_event {c}" and R="\<lambda>_. True" and E="\<lambda>_. True"] assms]
    by simp
  have "\<And>c'. c' \<noteq> c \<Longrightarrow> device_ok (emitted w w') c'"
    using device_ok_acquire_other[OF ev] by simp
  then have "(\<forall>c'. device_ok (emitted w w') c') = device_ok (emitted w w') c" by metis
  with acquire_images_result(1)[OF assms] show ?thesis by simp
qed

subsection \<open>The loops of \<^verbatim>\<open>capture\<close>\<close>

lemma steps_acquire_loop:
  assumes "\<And>ev. acquire_event (set cs) ev \<Longrightarrow> Q ev" "\<And>x. R x"
  shows "steps s Q E R (acquire_loop directory cs result)"
  using assms
proof (induction cs arbitrary: result)
  case Nil
  then show ?case by (simp add: steps_ret)
next
  case (Cons c cs)
  have Qc: "\<And>ev. acquire_event {c} ev \<Longrightarrow> Q ev"
  proof -
    fix ev assume "acquire_event {c} ev"
    then have "acquire_event (set (c # cs)) ev" by (cases ev) auto
    then show "Q ev" by (rule Cons.prems(1))
  qed
  have Qcs: "\<And>ev. acquire_event (set cs) ev \<Longrightarrow> Q ev"
  proof -
    fix ev assume "acquire_event (set cs) ev"
    then have "acquire_event (set (c # cs)) ev" by (cases ev) auto
    then show "Q ev" by (rule Cons.prems(1))
  qed
  show ?case
    unfolding acquire_loop.simps
    by (intro steps_bnd steps_acquire_images Cons.IH Qc Qcs Cons.prems(2) TrueI)
qed

lemma acquire_loop_run:
  "acquire_loop directory cs result w = (r, w') \<Longrightarrow>
   r = Inr (result \<and> (\<forall>c. device_ok (emitted w w') c)) \<and>
   (\<forall>c \<in> set cs. \<exists>out. Call c GetNextImage out \<in> set (emitted w w'))"
proof (induction cs arbitrary: result w)
  case Nil
  then show ?case by (simp add: ret_def)
next
  case (Cons c cs)
  from Cons.prems[unfolded acquire_loop.simps]
  obtain ok w1 where a: "acquire_images c directory w = (Inr ok, w1)"
      and l: "acquire_loop directory cs (result \<and> ok) w1 = (r, w')"
  proof (cases rule: bnd_cases)
    case (raised e)
    with acquire_images_all_ok[OF raised(1)] show ?thesis by simp
  next
    case (went_on x w1)
    then show ?thesis using that by blast
  qed
  note t1 = run_append[OF steps_acquire_images[where Q="\<lambda>_. True" and R="\<lambda>_. True" and E="\<lambda>_. True"] a, simplified]
  note t2 = run_append[OF steps_acquire_loop[where Q="\<lambda>_. True" and R="\<lambda>_. True" and E="\<lambda>_. True"] l, simplified]
  have e: "emitted w w' = emitted w w1 @ emitted w1 w'"
    using emitted_trans t1(1) t2(1) by blast
  have ok: "ok = (\<forall>c'. device_ok (emitted w w1) c')"
    using acquire_images_all_ok[OF a] by simp
  from Cons.IH[OF l] acquire_images_result(2)[OF a] ok e show ?case by auto
qed

lemma setup_event_not_failed:
  "setup_event s C ev \<Longrightarrow> failed_on c ev \<Longrightarrow> \<exists>c'. ev = Call c' DeviceInformation Raised"
  by (cases "(c, ev)" rule: failed_on.cases) (auto dest: config_call_not_outcome)

lemma config_event_not_failed: "config_event s c ev \<Longrightarrow> \<not> failed_on c' ev"
  by (cases "(c', ev)" rule: failed_on.cases) (auto dest: config_call_not_outcome)

text \<open>One iteration of the configuration loop after \<^verbatim>\<open>print_device_info\<close>.\<close>

lemma configure_iteration_quiet:
  assumes "steps (static w) (\<lambda>ev. \<forall>c'. \<not> failed_on c' ev) E R m" "m w = (r, w')"
  shows "\<forall>c'. device_ok (emitted w w') c'"
  using run_append(3)[OF assms] by (auto simp: device_ok_def)

lemma setup_one_not_failed: "setup_event s {c} ev \<Longrightarrow> ev \<noteq> Call c DeviceInformation Raised \<Longrightarrow> \<not> failed_on c' ev"
  by (cases "(c', ev)" rule: failed_on.cases) (auto dest: config_call_not_outcome)

lemma configure_one_quiet:
  assumes "configure_one lines c gain w = (r, w')"
  shows "device_ok (emitted w w') c'"
proof -
  have "steps (static w) (\<lambda>ev. setup_event (static w) {c} ev \<and> (\<forall>out. ev \<noteq> Call c DeviceInformation out))
          (\<lambda>_. True) (\<lambda>_. True) (configure_one lines c gain)"
  proof -
    have Qc: "\<And>ev. config_event (static w) c ev \<Longrightarrow>
                 setup_event (static w) {c} ev \<and> (\<forall>out. ev \<noteq> Call c DeviceInformation out)"
      subgoal for ev by (cases ev) auto
      done
    show ?thesis
      unfolding configure_one_def
      apply (intro steps_bnd steps_tl_GetValue steps_print steps_lift
                 steps_driver steps_ret TrueI)
                        apply (auto split: option.splits intro!: steps_print steps_ret steps_raise steps_configure_camera Qc)
      done
  qed
  from run_append(3)[OF this assms] show ?thesis
    by (auto simp: device_ok_def dest: setup_one_not_failed)
qed

lemma configure_loop_run:
  "configure_loop lines cs gain result w = (r, w') \<Longrightarrow>
   (\<forall>g res. r = Inr (Fallthrough (g, res)) \<longrightarrow> res = (result \<and> (\<forall>c. device_ok (emitted w w') c))) \<and>
   (\<forall>b. r = Inr (Return b) \<longrightarrow> \<not> b)"
proof (induction cs arbitrary: gain result w)
  case Nil
  then show ?case by (auto simp: ret_def)
next
  case (Cons c cs)
  from Cons.prems[unfolded configure_loop.simps]
  show ?case
  proof (cases rule: bnd_cases)
    case (raised e)
    then show ?thesis by simp
  next
    case (went_on ok w1)
    note p = print_device_info_all_ok[OF went_on(1)]
    note t1 = run_append[OF steps_print_device_info[where Q="\<lambda>_. True" and R="\<lambda>_. True" and E="\<lambda>_. True"] went_on(1), simplified]
    from went_on(2) show ?thesis
    proof (cases rule: bnd_cases)
      case (raised e)
      then show ?thesis by simp
    next
      case (went_on x w2)
      obtain g' configured where x: "x = (g', configured)" by (cases x)
      note q = configure_one_quiet[OF went_on(1)]
      note t2 = run_append[OF steps_configure_one[where Q="\<lambda>_. True" and R="\<lambda>_. True" and E="\<lambda>_. True"] went_on(1), simplified]
      show ?thesis
      proof (cases configured)
        case False
        with went_on(2) x show ?thesis by (auto simp: ret_def)
      next
        case True
        with went_on(2) x have l: "configure_loop lines cs g' (result \<and> ok) w2 = (r, w')" by simp
        note t3 = run_append[OF steps_configure_loop[where Q="\<lambda>_. True" and R="\<lambda>_. True" and E="\<lambda>_. True"] l, simplified]
        have e12: "emitted w w2 = emitted w w1 @ emitted w1 w2" "trace w2 = trace w @ emitted w w2"
          using emitted_append[OF t1(1) t2(1)] by simp_all
        have e: "emitted w w' = emitted w w1 @ emitted w1 w2 @ emitted w2 w'"
          using emitted_append[OF e12(2) t3(1)] e12(1) by simp
        from Cons.IH[OF l] p q e show ?thesis by auto
      qed
    qed
  qed
qed

lemma for_each_driver_ok:
  "for_each cs (\<lambda>c. driver c k) w = (Inr x, w') \<Longrightarrow>
   \<forall>c \<in> set cs. Call c k Ok \<in> set (emitted w w')"
proof (induction cs arbitrary: w)
  case Nil
  then show ?case by simp
next
  case (Cons c cs)
  from Cons.prems[unfolded for_each.simps]
  show ?case
  proof (cases rule: bnd_cases)
    case (went_on u w1)
    note t1 = run_append[OF steps_driver[where Q="\<lambda>_. True" and R="\<lambda>_. True" and E="\<lambda>_. True"] went_on(1), simplified]
    have l: "for_each cs (\<lambda>c. driver c k) w1 = (Inr x, w')" using went_on(2) .
    have "steps (static w1) (\<lambda>_. True) (\<lambda>_. True) (\<lambda>_. True) (for_each cs (\<lambda>c. driver c k))"
      by (intro steps_for_each steps_driver) simp_all
    note t2 = run_append[OF this l, simplified]
    have e: "emitted w w' = emitted w w1 @ emitted w1 w'"
      using emitted_trans t1(1) t2(1) by blast
    have "emitted w w1 = [Call c k Ok]"
      using went_on(1) by (auto simp: driver_def split: if_splits)
    with Cons.IH[OF l] e show ?thesis by auto
  qed simp
qed

subsection \<open>The phases of \<^verbatim>\<open>capture\<close>\<close>

lemma steps_begin_loop:
  assumes "\<And>c out. c \<in> set cs \<Longrightarrow> Q (Call c BeginAcquisition out)" "E SpinnakerException" "R ()"
  shows "steps s Q E R (for_each cs (\<lambda>c. driver c BeginAcquisition))"
  by (intro steps_for_each steps_driver assms) simp_all

lemma steps_teardown_loop:
  assumes "\<And>c out. c \<in> set cs \<Longrightarrow> Q (Call c EndAcquisition out)"
      and "\<And>c out. c \<in> set cs \<Longrightarrow> Q (Call c DeInit out)"
      and "(\<exists>c \<in> set cs. may_raise s c EndAcquisition \<or> may_raise s c DeInit) \<Longrightarrow> E SpinnakerException" "R ()"
  shows "steps s Q E R (for_each cs (\<lambda>c. bnd (driver c EndAcquisition) (\<lambda>_. driver c DeInit)))"
  apply (intro steps_for_each steps_bnd steps_driver assms(1,2,4))
  using assms(3) by auto

lemma capture_cases:
  assumes "capture lines directory cs w = (r, w')"
  obtains
    (config_raised) e where
      "configure_loop lines cs None True w = (Inl e, w')" "e \<noteq> SpinnakerException" "r = Inl e"
  | (config_spinnaker) w1 where
      "configure_loop lines cs None True w = (Inl SpinnakerException, w1)"
      "w' = log (Print (Msg_error SpinnakerException)) w1" "r = Inr False"
  | (config_returned) b where
      "configure_loop lines cs None True w = (Inr (Return b), w')" "r = Inr b"
  | (begin_raised) g res w1 w2 where
      "configure_loop lines cs None True w = (Inr (Fallthrough (g, res)), w1)"
      "for_each cs (\<lambda>c. driver c BeginAcquisition) w1 = (Inl SpinnakerException, w2)"
      "w' = log (Print (Msg_error SpinnakerException)) w2" "r = Inr False"
  | (teardown_raised) g res w1 w2 res' w3 w4 where
      "configure_loop lines cs None True w = (Inr (Fallthrough (g, res)), w1)"
      "for_each cs (\<lambda>c. driver c BeginAcquisition) w1 = (Inr (), w2)"
      "acquire_loop directory cs res w2 = (Inr res', w3)"
      "for_each cs (\<lambda>c. bnd (driver c EndAcquisition) (\<lambda>_. driver c DeInit)) w3 = (Inl SpinnakerException, w4)"
      "w' = log (Print (Msg_error SpinnakerException)) w4" "r = Inr False"
  | (completed) g res w1 w2 res' w3 where
      "configure_loop lines cs None True w = (Inr (Fallthrough (g, res)), w1)"
      "for_each cs (\<lambda>c. driver c BeginAcquisition) w1 = (Inr (), w2)"
      "acquire_loop directory cs res w2 = (Inr res', w3)"
      "for_each cs (\<lambda>c. bnd (driver c EndAcquisition) (\<lambda>_. driver c DeInit)) w3 = (Inr (), w')"
      "r = Inr res'"
proof -
  let ?body = "bnd (configure_loop lines cs None True) (\<lambda>r.
          case r of
            Return b \<Rightarrow> ret b
          | Fallthrough (gain, result) \<Rightarrow>
              bnd (for_each cs (\<lambda>c. driver c BeginAcquisition)) (\<lambda>_.
              bnd (acquire_loop directory cs result) (\<lambda>result'.
              bnd (for_each cs (\<lambda>c. bnd (driver c EndAcquisition) (\<lambda>_. driver c DeInit))) (\<lambda>_.
              ret result'))))"
  have handler: "\<And>w1. bnd (print (Msg_error SpinnakerException)) (\<lambda>_. ret False) w1
                      = (Inr False, log (Print (Msg_error SpinnakerException)) w1)"
    by (simp add: prog_defs)
  have body_cases: "\<And>rb wb. ?body w = (rb, wb) \<Longrightarrow>
      (\<exists>e. configure_loop lines cs None True w = (Inl e, wb) \<and> rb = Inl e) \<or>
      (\<exists>b. configure_loop lines cs None True w = (Inr (Return b), wb) \<and> rb = Inr b) \<or>
      (\<exists>g res w1. configure_loop lines cs None True w = (Inr (Fallthrough (g, res)), w1) \<and>
          (for_each cs (\<lambda>c. driver c BeginAcquisition) w1 = (Inl SpinnakerException, wb) \<and> rb = Inl SpinnakerException \<or>
           (\<exists>w2 res' w3. for_each cs (\<lambda>c. driver c BeginAcquisition) w1 = (Inr (), w2) \<and>
               acquire_loop directory cs res w2 = (Inr res', w3) \<and>
               (for_each cs (\<lambda>c. bnd (driver c EndAcquisition) (\<lambda>_. driver c DeInit)) w3 = (Inl SpinnakerException, wb) \<and> rb = Inl SpinnakerException \<or>
                for_each cs (\<lambda>c. bnd (driver c EndAcquisition) (\<lambda>_. driver c DeInit)) w3 = (Inr (), wb) \<and> rb = Inr res'))))"
  proof -
    fix rb wb assume "?body w = (rb, wb)"
    then show "?thesis rb wb"
    proof (cases rule: bnd_cases)
      case (raised e)
      then show ?thesis by blast
    next
      case (went_on x w1)
      show ?thesis
      proof (cases x)
        case (Return b)
        with went_on show ?thesis by (auto simp: ret_def)
      next
        case (Fallthrough p)
        obtain g res where p: "p = (g, res)" by (cases p)
        from went_on(2) Fallthrough p
        have "bnd (for_each cs (\<lambda>c. driver c BeginAcquisition)) (\<lambda>_.
              bnd (acquire_loop directory cs res) (\<lambda>result'.
              bnd (for_each cs (\<lambda>c. bnd (driver c EndAcquisition) (\<lambda>_. driver c DeInit))) (\<lambda>_.
              ret result'))) w1 = (rb, wb)" by simp
        then show ?thesis
        proof (cases rule: bnd_cases)
          case (raised e)
          have "steps (static w1) (\<lambda>_. True) (\<lambda>e. e = SpinnakerException) (\<lambda>_. True)
                  (for_each cs (\<lambda>c. driver c BeginAcquisition))"
            by (rule steps_begin_loop) simp_all
          from stepsD(5)[OF this refl raised(1)] have "e = SpinnakerException" by simp
          with raised went_on(1) Fallthrough p show ?thesis by blast
        next
          case (went_on u w2)
          note b = went_on(1)
          from went_on(2) show ?thesis
          proof (cases rule: bnd_cases)
            case (raised e)
            with acquire_loop_run[OF raised(1)] show ?thesis by simp
          next
            case (went_on res' w3)
            note a = went_on(1)
            from went_on(2) show ?thesis
            proof (cases rule: bnd_cases)
              case (raised e)
              have "steps (static w3) (\<lambda>_. True) (\<lambda>e. e = SpinnakerException) (\<lambda>_. True)
                  (for_each cs (\<lambda>c. bnd (driver c EndAcquisition) (\<lambda>_. driver c DeInit)))"
                by (rule steps_teardown_loop) simp_all
              from stepsD(5)[OF this refl raised(1)] have "e = SpinnakerException" by simp
              with raised a b \<open>configure_loop lines cs None True w = (Inr x, w1)\<close> Fallthrough p
              show ?thesis by auto
            next
              case (went_on u' w4)
              then have "wb = w4" "rb = Inr res'" by (auto simp: ret_def)
              with went_on a b \<open>configure_loop lines cs None True w = (Inr x, w1)\<close> Fallthrough p
              show ?thesis by auto
            qed
          qed
        qed
      qed
    qed
  qed
  from assms[unfolded capture_def] show ?thesis
  proof (cases rule: catchS_cases)
    case passed
    from body_cases[OF passed(1)] passed(2) show ?thesis
      using config_raised config_returned completed by (elim disjE exE conjE) auto
  next
    case (handled w1)
    from handled(2) have r: "r = Inr False" "w' = log (Print (Msg_error SpinnakerException)) w1"
      by (simp_all add: handler)
    from body_cases[OF handled(1)] r show ?thesis
      using config_spinnaker begin_raised teardown_raised by (elim disjE exE conjE) auto
  qed
qed

subsection \<open>The barrier\<close>

lemma barrier_no_retrieval: "\<forall>ev \<in> set es. \<not> is_retrieval ev \<Longrightarrow> barrier C es"
  by (auto simp: barrier_def)

lemma barrier_after:
  assumes "\<forall>ev \<in> set A. \<not> is_retrieval ev" "\<forall>c \<in> C. Call c BeginAcquisition Ok \<in> set A"
  shows "barrier C (A @ B)"
  unfolding barrier_def
proof (intro allI impI ballI)
  fix i c assume i: "i < length (A @ B)" "is_retrieval ((A @ B) ! i)" and c: "c \<in> C"
  have "\<not> i < length A"
  proof
    assume "i < length A"
    then have "(A @ B) ! i \<in> set A" by (simp add: nth_append)
    with assms(1) i(2) show False by blast
  qed
  then have "set A \<subseteq> set (take i (A @ B))" by auto
  with assms(2) c show "Call c BeginAcquisition Ok \<in> set (take i (A @ B))" by blast
qed

lemma barrier_prepend:
  assumes "\<forall>ev \<in> set A. \<not> is_retrieval ev" "barrier C B"
  shows "barrier C (A @ B)"
  unfolding barrier_def
proof (intro allI impI ballI)
  fix i c assume i: "i < length (A @ B)" "is_retrieval ((A @ B) ! i)" and c: "c \<in> C"
  have n: "\<not> i < length A"
  proof
    assume "i < length A"
    then have "(A @ B) ! i \<in> set A" by (simp add: nth_append)
    with assms(1) i(2) show False by blast
  qed
  then have "i - length A < length B" "is_retrieval (B ! (i - length A))"
    using i by (auto simp: nth_append)
  with assms(2) c have "Call c BeginAcquisition Ok \<in> set (take (i - length A) B)"
    by (auto simp: barrier_def)
  then show "Call c BeginAcquisition Ok \<in> set (take i (A @ B))" using n by auto
qed

lemma barrier_append:
  assumes "barrier C A" "\<forall>ev \<in> set B. \<not> is_retrieval ev"
  shows "barrier C (A @ B)"
  unfolding barrier_def
proof (intro allI impI ballI)
  fix i c assume i: "i < length (A @ B)" "is_retrieval ((A @ B) ! i)" and c: "c \<in> C"
  have n: "i < length A"
  proof (rule ccontr)
    assume "\<not> i < length A"
    then have "(A @ B) ! i \<in> set B" using i(1) by (auto simp: nth_append)
    with assms(2) i(2) show False by blast
  qed
  then have "is_retrieval (A ! i)" using i by (simp add: nth_append)
  with assms(1) c n have "Call c BeginAcquisition Ok \<in> set (take i A)" by (auto simp: barrier_def)
  then show "Call c BeginAcquisition Ok \<in> set (take i (A @ B))" using n by auto
qed

lemma setup_event_quiet: "setup_event s C ev \<Longrightarrow> \<not> is_retrieval ev \<and> \<not> is_begin ev"
  by (cases ev rule: is_retrieval.cases) (auto elim: config_call.elims)

lemma configure_loop_events:
  assumes "configure_loop lines cs gain result w = (r, w1)"
  shows "trace w1 = trace w @ emitted w w1" "static w1 = static w"
        "\<forall>ev \<in> set (emitted w w1). setup_event (static w) (set cs) ev"
  using run_append[OF steps_configure_loop[where Q="setup_event (static w) (set cs)" and R="\<lambda>_. True" and E="\<lambda>_. True"] assms]
  by simp_all

lemma begin_loop_events:
  assumes "for_each cs (\<lambda>c. driver c BeginAcquisition) w = (r, w1)"
  shows "trace w1 = trace w @ emitted w w1" "static w1 = static w"
        "\<forall>ev \<in> set (emitted w w1). \<exists>c out. ev = Call c BeginAcquisition out \<and> c \<in> set cs"
  using run_append[OF steps_begin_loop[where Q="\<lambda>ev. \<exists>c out. ev = Call c BeginAcquisition out \<and> c \<in> set cs"
           and R="\<lambda>_. True" and E="\<lambda>_. True"] assms]
  by simp_all

lemma acquire_loop_events:
  assumes "acquire_loop directory cs result w = (r, w1)"
  shows "trace w1 = trace w @ emitted w w1" "static w1 = static w"
        "\<forall>ev \<in> set (emitted w w1). acquire_event (set cs) ev"
  using run_append[OF steps_acquire_loop[where Q="acquire_event (set cs)" and R="\<lambda>_. True" and E="\<lambda>_. True"] assms]
  by simp_all

lemma teardown_loop_events:
  assumes "for_each cs (\<lambda>c. bnd (driver c EndAcquisition) (\<lambda>_. driver c DeInit)) w = (r, w1)"
  shows "trace w1 = trace w @ emitted w w1" "static w1 = static w"
        "\<forall>ev \<in> set (emitted w w1). \<exists>c out. (ev = Call c EndAcquisition out \<or> ev = Call c DeInit out) \<and> c \<in> set cs"
  using run_append[OF steps_teardown_loop[where Q="\<lambda>ev. \<exists>c out. (ev = Call c EndAcquisition out \<or> ev = Call c DeInit out) \<and> c \<in> set cs"
           and R="\<lambda>_. True" and E="\<lambda>_. True"] assms]
  by simp_all

lemma emitted_log_after:
  assumes "trace w1 = trace w @ emitted w w1"
  shows "emitted w (log e w1) = emitted w w1 @ [e]"
proof -
  have "length (trace w) \<le> length (trace w1)"
    by (metis assms le_add1 length_append)
  then show ?thesis by (simp add: emitted_def)
qed

lemma capture_barrier:
  assumes "capture lines directory cs w = (r, w')"
  shows "barrier (set cs) (emitted w w')"
  using assms
proof (cases rule: capture_cases)
  case (config_raised e)
  from configure_loop_events(3)[OF config_raised(1)] show ?thesis
    by (intro barrier_no_retrieval) (auto dest: setup_event_quiet)
next
  case (config_spinnaker w1)
  note c = configure_loop_events[OF config_spinnaker(1)]
  have "emitted w w' = emitted w w1 @ [Print (Msg_error SpinnakerException)]"
    using config_spinnaker(2) c(1) by (simp add: emitted_log_after)
  with c(3) show ?thesis
    by (intro barrier_no_retrieval) (auto dest: setup_event_quiet)
next
  case (config_returned b)
  from configure_loop_events(3)[OF config_returned(1)] show ?thesis
    by (intro barrier_no_retrieval) (auto dest: setup_event_quiet)
next
  case (begin_raised g res w1 w2)
  note c = configure_loop_events[OF begin_raised(1)]
  note b = begin_loop_events[OF begin_raised(2)]
  have "trace w2 = trace w @ emitted w w2" "emitted w w2 = emitted w w1 @ emitted w1 w2"
    using emitted_append[OF c(1) b(1)] by simp_all
  then have "emitted w w' = emitted w w1 @ emitted w1 w2 @ [Print (Msg_error SpinnakerException)]"
    using begin_raised(3) by (simp add: emitted_log_after)
  with c(3) b(3) show ?thesis
    by (intro barrier_no_retrieval) (auto dest: setup_event_quiet)
next
  case (teardown_raised g res w1 w2 res' w3 w4)
  note c = configure_loop_events[OF teardown_raised(1)]
  note b = begin_loop_events[OF teardown_raised(2)]
  note a = acquire_loop_events[OF teardown_raised(3)]
  note t = teardown_loop_events[OF teardown_raised(4)]
  have 2: "trace w2 = trace w @ emitted w w2" "emitted w w2 = emitted w w1 @ emitted w1 w2"
    using emitted_append[OF c(1) b(1)] by simp_all
  have 3: "trace w3 = trace w @ emitted w w3" "emitted w w3 = emitted w w2 @ emitted w2 w3"
    using emitted_append[OF 2(1) a(1)] by simp_all
  have 4: "trace w4 = trace w @ emitted w w4" "emitted w w4 = emitted w w3 @ emitted w3 w4"
    using emitted_append[OF 3(1) t(1)] by simp_all
  have e: "emitted w w' = emitted w w2 @ (emitted w2 w3 @ emitted w3 w4 @ [Print (Msg_error SpinnakerException)])"
    using teardown_raised(5) 3(2) 4 by (simp add: emitted_log_after)
  have q: "\<forall>ev \<in> set (emitted w w2). \<not> is_retrieval ev"
    using c(3) b(3) 2(2) by (auto dest: setup_event_quiet)
  have "\<forall>c \<in> set cs. Call c BeginAcquisition Ok \<in> set (emitted w w2)"
    using for_each_driver_ok[OF teardown_raised(2)] 2(2) by auto
  with q show ?thesis unfolding e by (rule barrier_after)
next
  case (completed g res w1 w2 res' w3)
  note c = configure_loop_events[OF completed(1)]
  note b = begin_loop_events[OF completed(2)]
  note a = acquire_loop_events[OF completed(3)]
  note t = teardown_loop_events[OF completed(4)]
  have 2: "trace w2 = trace w @ emitted w w2" "emitted w w2 = emitted w w1 @ emitted w1 w2"
    using emitted_append[OF c(1) b(1)] by simp_all
  have 3: "trace w3 = trace w @ emitted w w3" "emitted w w3 = emitted w w2 @ emitted w2 w3"
    using emitted_append[OF 2(1) a(1)] by simp_all
  have 4: "trace w' = trace w @ emitted w w'" "emitted w w' = emitted w w3 @ emitted w3 w'"
    using emitted_append[OF 3(1) t(1)] by simp_all
  have e: "emitted w w' = emitted w w2 @ (emitted w2 w3 @ emitted w3 w')"
    using 3(2) 4 by simp
  have q: "\<forall>ev \<in> set (emitted w w2). \<not> is_retrieval ev"
    using c(3) b(3) 2(2) by (auto dest: setup_event_quiet)
  have "\<forall>c \<in> set cs. Call c BeginAcquisition Ok \<in> set (emitted w w2)"
    using for_each_driver_ok[OF completed(2)] 2(2) by auto
  with q show ?thesis unfolding e by (rule barrier_after)
qed

subsection \<open>The phases of \<^verbatim>\<open>main\<close>\<close>

lemma steps_init_loop:
  assumes "\<And>m. Q (Print m)" "\<And>c out. c \<in> set cs \<Longrightarrow> Q (Call c Init out)" "E SpinnakerException" "R ()"
  shows "steps s Q E R (for_each cs (\<lambda>c. bnd (driver c Init) (\<lambda>_. print (Msg_camera c))))"
  by (intro steps_for_each steps_bnd steps_driver steps_print assms) simp_all

lemma steps_deinit_loop:
  assumes "\<And>c out. c \<in> set cs \<Longrightarrow> Q (Call c DeInit out)"
      and "(\<exists>c \<in> set cs. may_raise s c DeInit) \<Longrightarrow> E SpinnakerException" "R ()"
  shows "steps s Q E R (for_each cs (\<lambda>c. driver c DeInit))"
  apply (intro steps_for_each steps_driver assms(1,3))
  using assms(2) by auto

lemma init_loop_events:
  assumes "for_each cs (\<lambda>c. bnd (driver c Init) (\<lambda>_. print (Msg_camera c))) w = (r, w1)"
  shows "trace w1 = trace w @ emitted w w1" "static w1 = static w"
        "\<forall>ev \<in> set (emitted w w1). (\<exists>m. ev = Print m) \<or> (\<exists>c out. ev = Call c Init out \<and> c \<in> set cs)"
        "\<forall>e. r = Inl e \<longrightarrow> e = SpinnakerException"
  using stepsD[OF steps_init_loop[where Q="\<lambda>ev. (\<exists>m. ev = Print m) \<or> (\<exists>c out. ev = Call c Init out \<and> c \<in> set cs)"
           and R="\<lambda>_. True" and E="\<lambda>e. e = SpinnakerException"] refl assms]
  by simp_all

lemma deinit_loop_events:
  assumes "for_each cs (\<lambda>c. driver c DeInit) w = (r, w1)"
  shows "trace w1 = trace w @ emitted w w1" "static w1 = static w"
        "\<forall>ev \<in> set (emitted w w1). \<exists>c out. ev = Call c DeInit out \<and> c \<in> set cs"
        "\<forall>e. r = Inl e \<longrightarrow> e = SpinnakerException \<and> (\<exists>c \<in> set cs. may_raise w c DeInit)"
  using stepsD[OF steps_deinit_loop[where Q="\<lambda>ev. \<exists>c out. ev = Call c DeInit out \<and> c \<in> set cs"
           and R="\<lambda>_. True" and E="\<lambda>e. e = SpinnakerException \<and> (\<exists>c \<in> set cs. may_raise w c DeInit)"] refl assms]
  by simp_all

lemma capture_events:
  assumes "capture lines directory cs w = (r, w')"
  shows "trace w' = trace w @ emitted w w'" "static w' = static w"
proof -
  have "steps (static w) (\<lambda>_. True) (\<lambda>_. True) (\<lambda>_. True) (capture lines directory cs)"
    unfolding capture_def
    apply (rule steps_catch[where E'="\<lambda>_. True"])
      apply (rule steps_bnd)
       apply (rule steps_configure_loop)
         apply simp_all
     apply (auto split: ctl.splits intro!: steps_ret steps_bnd steps_begin_loop steps_acquire_loop
                  steps_teardown_loop steps_print)
    done
  from run_append[OF this assms] show "trace w' = trace w @ emitted w w'" "static w' = static w"
    by simp_all
qed

lemma main_cases:
  assumes "main lines directory w = (r, w')"
  obtains
    (no_cameras) "num_cameras w = 0" "r = Inr False"
      "w' = log (Print Msg_not_enough_cameras) (log (Print (Msg_num_cameras 0)) w)"
  | (init_raised) "num_cameras w \<noteq> 0"
      "for_each [0..<num_cameras w] (\<lambda>c. bnd (driver c Init) (\<lambda>_. print (Msg_camera c)))
         (log (Print (Msg_num_cameras (num_cameras w))) w) = (Inl SpinnakerException, w')"
      "r = Inl SpinnakerException"
  | (capture_raised) w1 e where "num_cameras w \<noteq> 0"
      "for_each [0..<num_cameras w] (\<lambda>c. bnd (driver c Init) (\<lambda>_. print (Msg_camera c)))
         (log (Print (Msg_num_cameras (num_cameras w))) w) = (Inr (), w1)"
      "capture lines directory [0..<num_cameras w] w1 = (Inl e, w')" "r = Inl e"
  | (deinit_raised) w1 ok w2 where "num_cameras w \<noteq> 0"
      "for_each [0..<num_cameras w] (\<lambda>c. bnd (driver c Init) (\<lambda>_. print (Msg_camera c)))
         (log (Print (Msg_num_cameras (num_cameras w))) w) = (Inr (), w1)"
      "capture lines directory [0..<num_cameras w] w1 = (Inr ok, w2)"
      "for_each [0..<num_cameras w] (\<lambda>c. driver c DeInit) w2 = (Inl SpinnakerException, w')"
      "r = Inl SpinnakerException"
  | (completed) w1 ok w2 where "num_cameras w \<noteq> 0"
      "for_each [0..<num_cameras w] (\<lambda>c. bnd (driver c Init) (\<lambda>_. print (Msg_camera c)))
         (log (Print (Msg_num_cameras (num_cameras w))) w) = (Inr (), w1)"
      "capture lines directory [0..<num_cameras w] w1 = (Inr ok, w2)"
      "for_each [0..<num_cameras w] (\<lambda>c. driver c DeInit) w2 = (Inr (), w')"
      "r = Inr ok"
proof (cases "num_cameras w = 0")
  case True
  with assms have "r = Inr False" "w' = log (Print Msg_not_enough_cameras) (log (Print (Msg_num_cameras 0)) w)"
    by (simp_all add: main_def prog_defs)
  with True show ?thesis by (rule no_cameras)
next
  case False
  let ?w0 = "log (Print (Msg_num_cameras (num_cameras w))) w"
  from assms False have
    "bnd (for_each [0..<num_cameras w] (\<lambda>c. bnd (driver c Init) (\<lambda>_. print (Msg_camera c)))) (\<lambda>_.
         bnd (capture lines directory [0..<num_cameras w]) (\<lambda>ok.
         bnd (for_each [0..<num_cameras w] (\<lambda>c. driver c DeInit)) (\<lambda>_.
         ret ok))) ?w0 = (r, w')"
    by (simp add: main_def bnd_def print_def)
  then show ?thesis
  proof (cases rule: bnd_cases)
    case (raised e)
    with init_loop_events(4)[OF raised(1)] False show ?thesis by (auto intro: init_raised)
  next
    case (went_on u w1)
    note i = went_on(1)
    from went_on(2) show ?thesis
    proof (cases rule: bnd_cases)
      case (raised e)
      with i False show ?thesis by (auto intro: capture_raised)
    next
      case (went_on ok w2)
      note c = went_on(1)
      from went_on(2) show ?thesis
      proof (cases rule: bnd_cases)
        case (raised e)
        with deinit_loop_events(4)[OF raised(1)] i c False show ?thesis
          by (auto intro: deinit_raised)
      next
        case (went_on u' w3)
        then have "w' = w3" "r = Inr ok" by (auto simp: ret_def)
        with went_on i c False show ?thesis by (auto intro: completed)
      qed
    qed
  qed
qed

lemma main_barrier:
  assumes "main lines directory w = (r, w')"
  shows "barrier {0..<num_cameras w} (emitted w w')"
proof -
  let ?n = "num_cameras w"
  let ?w0 = "log (Print (Msg_num_cameras ?n)) w"
  have w0: "trace ?w0 = trace w @ emitted w ?w0" "emitted w ?w0 = [Print (Msg_num_cameras ?n)]"
    by simp_all
  from assms show ?thesis
  proof (cases rule: main_cases)
    case no_cameras
    then show ?thesis by (simp add: barrier_def emitted_def)
  next
    case init_raised
    note i = init_loop_events[OF init_raised(2)]
    have "emitted w w' = emitted w ?w0 @ emitted ?w0 w'"
      using emitted_append[OF w0(1) i(1)] by simp
    with i(3) w0(2) show ?thesis by (intro barrier_no_retrieval) auto
  next
    case (capture_raised w1 e)
    note i = init_loop_events[OF capture_raised(2)]
    note c = capture_events[OF capture_raised(3)]
    have 1: "trace w1 = trace w @ emitted w w1" "emitted w w1 = emitted w ?w0 @ emitted ?w0 w1"
      using emitted_append[OF w0(1) i(1)] by simp_all
    have e: "emitted w w' = emitted w w1 @ emitted w1 w'"
      using emitted_append[OF 1(1) c(1)] by simp
    have q: "\<forall>ev \<in> set (emitted w w1). \<not> is_retrieval ev" using i(3) w0(2) 1(2) by auto
    from capture_barrier[OF capture_raised(3)] have "barrier {0..<?n} (emitted w1 w')" by simp
    with q show ?thesis unfolding e by (rule barrier_prepend)
  next
    case (deinit_raised w1 ok w2)
    note i = init_loop_events[OF deinit_raised(2)]
    note c = capture_events[OF deinit_raised(3)]
    note d = deinit_loop_events[OF deinit_raised(4)]
    have 1: "trace w1 = trace w @ emitted w w1" "emitted w w1 = emitted w ?w0 @ emitted ?w0 w1"
      using emitted_append[OF w0(1) i(1)] by simp_all
    have 2: "trace w2 = trace w @ emitted w w2" "emitted w w2 = emitted w w1 @ emitted w1 w2"
      using emitted_append[OF 1(1) c(1)] by simp_all
    have e: "emitted w w' = emitted w w2 @ emitted w2 w'"
      using emitted_append[OF 2(1) d(1)] by simp
    have q: "\<forall>ev \<in> set (emitted w w1). \<not> is_retrieval ev" using i(3) w0(2) 1(2) by auto
    from capture_barrier[OF deinit_raised(3)] have "barrier {0..<?n} (emitted w1 w2)" by simp
    with q have "barrier {0..<?n} (emitted w w2)" unfolding 2(2) by (rule barrier_prepend)
    moreover have "\<forall>ev \<in> set (emitted w2 w'). \<not> is_retrieval ev" using d(3) by auto
    ultimately show ?thesis unfolding e by (rule barrier_append)
  next
    case (completed w1 ok w2)
    note i = init_loop_events[OF completed(2)]
    note c = capture_events[OF completed(3)]
    note d = deinit_loop_events[OF completed(4)]
    have 1: "trace w1 = trace w @ emitted w w1" "emitted w w1 = emitted w ?w0 @ emitted ?w0 w1"
      using emitted_append[OF w0(1) i(1)] by simp_all
    have 2: "trace w2 = trace w @ emitted w w2" "emitted w w2 = emitted w w1 @ emitted w1 w2"
      using emitted_append[OF 1(1) c(1)] by simp_all
    have e: "emitted w w' = emitted w w2 @ emitted w2 w'"
      using emitted_append[OF 2(1) d(1)] by simp
    have q: "\<forall>ev \<in> set (emitted w w1). \<not> is_retrieval ev" using i(3) w0(2) 1(2) by auto
    from capture_barrier[OF completed(3)] have "barrier {0..<?n} (emitted w1 w2)" by simp
    with q have "barrier {0..<?n} (emitted w w2)" unfolding 2(2) by (rule barrier_prepend)
    moreover have "\<forall>ev \<in> set (emitted w2 w'). \<not> is_retrieval ev" using d(3) by auto
    ultimately show ?thesis unfolding e by (rule barrier_append)
  qed
qed

lemma config_call_static [simp]: "config_call (static w) c k = config_call w c k"
  by (cases k) simp_all

lemma config_event_static [simp]: "config_event (static w) c ev = config_event w c ev"
  by (cases ev) simp_all


lemma configure_camera_run:
  assumes "configure_camera c gain w = (r, w')"
  shows "\<forall>ev \<in> set (emitted w w'). config_event w c ev"
    and "\<And>c' name. (\<forall>ev \<in> set (emitted w w'). \<not> is_write c' name ev) \<Longrightarrow>
                     nodemap (cams w' c') name = nodemap (cams w c') name"
    and "\<exists>b. r = Inr b"
    and "(\<forall>k. config_call w c k \<longrightarrow> \<not> may_raise w c k) \<Longrightarrow> r = Inr True"
proof -
  have s: "steps (static w) (config_event (static w) c) (\<lambda>_. False)
             (\<lambda>b. b \<or> (\<exists>k. may_raise (static w) c k \<and> config_call (static w) c k))
             (configure_camera c gain)"
    by (rule steps_configure_camera) auto
  note d = stepsD[OF s refl assms]
  show "\<forall>ev \<in> set (emitted w w'). config_event w c ev" using d(3) by simp
  show "\<And>c' name. (\<forall>ev \<in> set (emitted w w'). \<not> is_write c' name ev) \<Longrightarrow>
                     nodemap (cams w' c') name = nodemap (cams w c') name" using d(4) by blast
  show "\<exists>b. r = Inr b" using d(5) by (cases r) auto
  show "(\<forall>k. config_call w c k \<longrightarrow> \<not> may_raise w c k) \<Longrightarrow> r = Inr True"
    using d(5) d(6) by (cases r) auto
qed

lemma configure_body_True:
  assumes "configure_body c gain w = (Inr b, w1)"
  shows "b"
proof -
  have "steps (static w) (config_event (static w) c) (\<lambda>_. True) (\<lambda>b. b) (configure_body c gain)"
    by (rule steps_configure_body) auto
  from stepsD(6)[OF this refl assms] show ?thesis by simp
qed

subsection \<open>The lookup and the configuration loop\<close>








lemma main_after_startup:
  assumes "startup w = (Inr (), w0)" "num_cameras w \<noteq> 0"
  shows "main lines directory w =
           bnd (capture lines directory [0..<num_cameras w]) (\<lambda>ok.
           bnd (for_each [0..<num_cameras w] (\<lambda>c. driver c DeInit)) (\<lambda>_. ret ok)) w0"
  using assms by (simp add: main_def startup_def bnd_def print_def)

lemma startup_events:
  assumes "startup w = (r, w0)"
  shows "trace w0 = trace w @ emitted w w0" "static w0 = static w"
        "\<forall>ev \<in> set (emitted w w0). (\<exists>m. ev = Print m) \<or> (\<exists>c out. ev = Call c Init out)"
proof -
  have "steps (static w) (\<lambda>ev. (\<exists>m. ev = Print m) \<or> (\<exists>c out. ev = Call c Init out)) (\<lambda>_. True) (\<lambda>_. True) startup"
    unfolding startup_def
    by (rule steps_read) (auto intro!: steps_bnd steps_print steps_init_loop)
  from run_append[OF this assms]
  show "trace w0 = trace w @ emitted w w0" "static w0 = static w"
        "\<forall>ev \<in> set (emitted w w0). (\<exists>m. ev = Print m) \<or> (\<exists>c out. ev = Call c Init out)"
    by simp_all
qed

subsection \<open>Loops of driver calls that cannot fail\<close>

lemma deinit_loop_total:
  assumes "\<forall>c \<in> set cs. \<not> may_raise w c DeInit"
  shows "\<exists>w'. for_each cs (\<lambda>c. driver c DeInit) w = (Inr (), w')"
proof -
  obtain r w' where d: "for_each cs (\<lambda>c. driver c DeInit) w = (r, w')" by (cases "for_each cs (\<lambda>c. driver c DeInit) w")
  from deinit_loop_events(4)[OF d] assms have "r = Inr ()" by (cases r) auto
  with d show ?thesis by blast
qed



lemma capture_config_returned:
  assumes "configure_loop lines cs None True w = (Inr (Return b), w1)"
  shows "capture lines directory cs w = (Inr False, w1)"
proof -
  have "\<not> b" using configure_loop_run[OF assms] by simp
  with assms show ?thesis by (simp add: capture_def catchS_def bnd_def ret_def)
qed


subsection \<open>The result of a session that reaches the teardown\<close>








subsection \<open>Evaluating concrete runs\<close>

lemmas eval_defs = change_enum_setting_def change_gain_def set_max_extent_def configure_body_def configure_camera_def
     prog_defs node_defs session_def bench_camera_def bench_nodemap_def enum_node_def value_node_def bare_camera_def
     width_camera_def plain_entry_def no_faults_def save_fails_def unplugged_def fails_only_def
     IsAvailable_def IsWritable_def IsReadable_def log_def store_def
     main_def startup_def capture_def configure_one_def print_device_info_def tl_GetValue_def acquire_images_def
     frame_body_def cam_GetNextImage_def image_Release_def NUM_IMAGES_def good_frame_def partial_frame_def
     block_def TAB_def NL_def index_def Let_def two_cameras_def two_blocks_def malformed_lines_def
     spec_malformed_lines_def example_lines_def

section \<open>The claims\<close>

lemma split_on_nonempty: "split_on sep s \<noteq> []"
  by (induction s) (auto split: list.splits)

text \<open>
  C2 (code defect).  On the configuration lines \<^verbatim>\<open>"DeviceSerialNumber\tABC123\n"\<close>,
  \<^verbatim>\<open>"Gain\t12.5\n"\<close> and the identity \<open>ABC123\<close> the lookup of the source leaves \<^verbatim>\<open>gain\<close>
  unbound instead of yielding \<open>12.5\<close>: the second field of the serial-number line still
  carries the newline that \<^verbatim>\<open>readlines()\<close> keeps, so it is \<^verbatim>\<open>"ABC123\n"\<close> and differs from the
  identity.
\<close>

theorem C2_lookup_misses_own_block:
  "split_on TAB (example_lines ! 0) = [''DeviceSerialNumber'', ''ABC123'' @ [NL]] \<and>
   lookup_gain example_lines ''ABC123'' None = Inr None"
  by (simp add: example_lines_def TAB_def NL_def index_def)

text \<open>
  C1 (code defect).  The claim: every frame that \<^verbatim>\<open>acquire_images\<close> retrieves is released
  exactly once on every path.  In the source \<^verbatim>\<open>image_result.Release()\<close> stands at the end of
  the branch of a complete frame, after \<^verbatim>\<open>Save\<close>.  An incomplete frame is only reported:
  the function returns \<^verbatim>\<open>True\<close> with the frame still held.  When \<^verbatim>\<open>Save\<close> raises, the handler
  ends the acquisition and returns \<^verbatim>\<open>False\<close>, again with the frame still held.  No
  \<open>Release\<close> call appears in either run.
\<close>

theorem C1_frames_left_unreleased:
  "fst (acquire_images 0 ''/d'' (session [bare_camera ''A'' [partial_frame]] no_faults)) = Inr True \<and>
   trace (snd (acquire_images 0 ''/d'' (session [bare_camera ''A'' [partial_frame]] no_faults))) =
     [Print Msg_acquiring, Print (Msg_serial_retrieved ''A''), Call 0 GetNextImage Ok,
      Print (Msg_incomplete 9)] \<and>
   held (cams (snd (acquire_images 0 ''/d'' (session [bare_camera ''A'' [partial_frame]] no_faults))) 0) = 1 \<and>
   fst (acquire_images 0 ''/d'' (session [bare_camera ''A'' [good_frame]] save_fails)) = Inr False \<and>
   trace (snd (acquire_images 0 ''/d'' (session [bare_camera ''A'' [good_frame]] save_fails))) =
     [Print Msg_acquiring, Print (Msg_serial_retrieved ''A''), Call 0 GetNextImage Ok,
      Print (Msg_grabbed 0 2048 1536), Call 0 (Save ''/d/RatKingReigns-A-0.png'') Raised,
      Print (Msg_error SpinnakerException), Call 0 EndAcquisition Ok] \<and>
   held (cams (snd (acquire_images 0 ''/d'' (session [bare_camera ''A'' [good_frame]] save_fails))) 0) = 1"
  by (simp add: eval_defs str_nat.simps)

text \<open>
  C3 (code defect).  The claim: a device whose identity matches no block proceeds with its
  default gain, the omission being a warning and never fatal.  The source prints the warning
  (it catches the \<open>NameError\<close> of \<^verbatim>\<open>try: gain\<close>), then evaluates \<^verbatim>\<open>gain\<close> again as the argument
  of \<^verbatim>\<open>configure_camera\<close>: the \<open>UnboundLocalError\<close> is caught nowhere and ends \<^verbatim>\<open>capture\<close> and
  \<^verbatim>\<open>main\<close>.  When an earlier device has bound \<^verbatim>\<open>gain\<close>, a device without a block is not
  warned about and is configured with the earlier device's gain: the lookup for \<open>B\<close> returns
  the binding that the lookup for \<open>A\<close> left.
\<close>

theorem C3_missing_gain_is_fatal:
  "fst (main example_lines ''/d'' (session [bare_camera ''XYZ999'' [good_frame]] no_faults))
     = Inl UnboundLocalError \<and>
   trace (snd (main example_lines ''/d'' (session [bare_camera ''XYZ999'' [good_frame]] no_faults))) =
     [Print (Msg_num_cameras 1), Call 0 Init Ok, Print (Msg_camera 0),
      Print Msg_device_information, Call 0 DeviceInformation Ok,
      Print (Msg_configuring ''XYZ999''), Print (Msg_gain_undefined ''XYZ999''), Call 0 Init Ok] \<and>
   lookup_gain (block ''A'' ''3.5'') ''A'' None = Inr (Some ''3.5'') \<and>
   lookup_gain (block ''A'' ''3.5'') ''B'' (Some ''3.5'') = Inr (Some ''3.5'')"
  by (simp add: eval_defs)

text \<open>
  C4.  In every run of \<^verbatim>\<open>capture\<close> over a camera list, and in every run of \<^verbatim>\<open>main\<close>, each
  call of \<^verbatim>\<open>GetNextImage\<close> (successful or not, on any camera) comes after a successful
  \<^verbatim>\<open>BeginAcquisition\<close> on every camera of the fleet: the acquisition-start barrier.  It holds
  whatever the driver does: when a \<^verbatim>\<open>BeginAcquisition\<close> raises, no frame is retrieved at all.
\<close>

theorem C4_acquisition_start_barrier:
  "barrier (set cam_list) (emitted w (snd (capture lines directory cam_list w))) \<and>
   barrier {0..<num_cameras w} (emitted w (snd (main lines directory w)))"
  using capture_barrier[of lines directory cam_list w] main_barrier[of lines directory w]
  by (metis prod.collapse)

theorem C4_acquisition_start_barrier_witness:
  "barrier {0..<2} (trace (snd (main two_blocks ''/d'' two_cameras))) \<and>
   fst (main two_blocks ''/d'' two_cameras) = Inr True \<and>
   drop 31 (trace (snd (main two_blocks ''/d'' two_cameras))) =
     [Call 0 BeginAcquisition Ok, Call 1 BeginAcquisition Ok,
      Print Msg_acquiring, Print (Msg_serial_retrieved ''A''), Call 0 GetNextImage Ok,
      Print (Msg_grabbed 0 2048 1536), Call 0 (Save ''/d/RatKingReigns-A-0.png'') Ok,
      Print (Msg_saved ''RatKingReigns-A-0.png''), Call 0 Release Ok, Print Msg_blank,
      Print Msg_acquiring, Print (Msg_serial_retrieved ''B''), Call 1 GetNextImage Ok,
      Print (Msg_grabbed 0 2048 1536), Call 1 (Save ''/d/RatKingReigns-B-0.png'') Ok,
      Print (Msg_saved ''RatKingReigns-B-0.png''), Call 1 Release Ok, Print Msg_blank,
      Call 0 EndAcquisition Ok, Call 0 DeInit Ok, Call 1 EndAcquisition Ok, Call 1 DeInit Ok,
      Call 0 DeInit Ok, Call 1 DeInit Ok]"
proof -
  have n: "num_cameras two_cameras = 2" "trace two_cameras = []"
    by (simp_all add: two_cameras_def session_def)
  have "barrier {0..<num_cameras two_cameras} (emitted two_cameras (snd (main two_blocks ''/d'' two_cameras)))"
    using C4_acquisition_start_barrier[of "[]" two_cameras two_blocks "''/d''"] by simp
  then have b: "barrier {0..<2} (trace (snd (main two_blocks ''/d'' two_cameras)))"
    by (simp add: n emitted_def)
  have "fst (main two_blocks ''/d'' two_cameras) = Inr True \<and>
   drop 31 (trace (snd (main two_blocks ''/d'' two_cameras))) =
     [Call 0 BeginAcquisition Ok, Call 1 BeginAcquisition Ok,
      Print Msg_acquiring, Print (Msg_serial_retrieved ''A''), Call 0 GetNextImage Ok,
      Print (Msg_grabbed 0 2048 1536), Call 0 (Save ''/d/RatKingReigns-A-0.png'') Ok,
      Print (Msg_saved ''RatKingReigns-A-0.png''), Call 0 Release Ok, Print Msg_blank,
      Print Msg_acquiring, Print (Msg_serial_retrieved ''B''), Call 1 GetNextImage Ok,
      Print (Msg_grabbed 0 2048 1536), Call 1 (Save ''/d/RatKingReigns-B-0.png'') Ok,
      Print (Msg_saved ''RatKingReigns-B-0.png''), Call 1 Release Ok, Print Msg_blank,
      Call 0 EndAcquisition Ok, Call 0 DeInit Ok, Call 1 EndAcquisition Ok, Call 1 DeInit Ok,
      Call 0 DeInit Ok, Call 1 DeInit Ok]"
    by (simp add: eval_defs str_nat.simps)
  with b show ?thesis by blast
qed

text \<open>
  C6.  \<^verbatim>\<open>change_enum_setting(cam, setting, choice)\<close> never raises and
  \<^item> when the enumeration node is missing, unavailable or not writable, it performs no driver
    call and only prints a failure report (\<^verbatim>\<open>"... is not available..."\<close> with the node's
    display name, or \<^verbatim>\<open>"Error: ..."\<close> when the node is missing and reading its display name
    raises);
  \<^item> when the enumeration passes the gate and the entry is missing, unavailable or not
    readable, it likewise performs no driver call and only prints a failure report;
  \<^item> when both gates pass and the driver accepts the two calls, it reads the entry's integer
    code and writes exactly that code to the enumeration node;
  \<^item> in every run the only write it attempts is \<^verbatim>\<open>SetIntValue\<close> of the entry's code on the
    enumeration node, and the entries of the node are as before: the entry is never written.
\<close>

theorem C6_enumeration_resolution:
  assumes "change_enum_setting c setting choice w = (r, w')"
  shows "r = Inr () \<and>
    (\<not> gate_ok w c setting \<longrightarrow>
       w' = log (Print (case nodemap (cams w c) setting of
                          None \<Rightarrow> Msg_error SpinnakerException
                        | Some n \<Rightarrow> Msg_not_available (display_name n))) w) \<and>
    (\<forall>n. nodemap (cams w c) setting = Some n \<and> gate_ok w c setting \<and>
         \<not> (IsAvailable (entries n choice) \<and> IsReadable (entries n choice)) \<longrightarrow>
       w' = log (Print (case entries n choice of
                          None \<Rightarrow> Msg_error SpinnakerException
                        | Some e \<Rightarrow> Msg_not_available (display_name e))) w) \<and>
    (\<forall>n e. nodemap (cams w c) setting = Some n \<and> gate_ok w c setting \<and>
           entries n choice = Some e \<and> available e \<and> readable e \<and>
           \<not> faults w (trace w) c (EntryGetValue setting choice) \<and>
           \<not> faults w (trace w @ [Call c (EntryGetValue setting choice) Ok]) c
                 (SetIntValue setting (int_value e)) \<longrightarrow>
       w' = log (Print (Msg_set_to (display_name n) (display_name e)))
              (store c setting (IntVal (int_value e))
                (log (Call c (SetIntValue setting (int_value e)) Ok)
                  (log (Call c (EntryGetValue setting choice) Ok) w)))) \<and>
    (\<forall>ev \<in> set (emitted w w').
       (\<exists>m. ev = Print m) \<or> (\<exists>out. ev = Call c (EntryGetValue setting choice) out) \<or>
       (\<exists>n e out. nodemap (cams w c) setting = Some n \<and> available n \<and> writable n \<and>
                   entries n choice = Some e \<and> available e \<and> readable e \<and>
                   ev = Call c (SetIntValue setting (int_value e)) out)) \<and>
    map_option entries (nodemap (cams w' c) setting) = map_option entries (nodemap (cams w c) setting)"
proof -
  have a: "\<not> gate_ok w c setting \<Longrightarrow>
       w' = log (Print (case nodemap (cams w c) setting of
                          None \<Rightarrow> Msg_error SpinnakerException
                        | Some n \<Rightarrow> Msg_not_available (display_name n))) w"
    using change_enum_setting_unavailable[of w c setting choice] assms
    by (simp add: gate_ok_def)
  have b: "\<And>n. nodemap (cams w c) setting = Some n \<Longrightarrow> gate_ok w c setting \<Longrightarrow>
         \<not> (IsAvailable (entries n choice) \<and> IsReadable (entries n choice)) \<Longrightarrow>
       w' = log (Print (case entries n choice of
                          None \<Rightarrow> Msg_error SpinnakerException
                        | Some e \<Rightarrow> Msg_not_available (display_name e))) w"
    using change_enum_setting_entry_unavailable[of w c setting _ choice] assms
    by (simp add: gate_ok_def IsAvailable_def IsWritable_def)
  have c: "\<And>n e. nodemap (cams w c) setting = Some n \<Longrightarrow> gate_ok w c setting \<Longrightarrow>
           entries n choice = Some e \<Longrightarrow> available e \<Longrightarrow> readable e \<Longrightarrow>
           \<not> faults w (trace w) c (EntryGetValue setting choice) \<Longrightarrow>
           \<not> faults w (trace w @ [Call c (EntryGetValue setting choice) Ok]) c
                 (SetIntValue setting (int_value e)) \<Longrightarrow>
       w' = log (Print (Msg_set_to (display_name n) (display_name e)))
              (store c setting (IntVal (int_value e))
                (log (Call c (SetIntValue setting (int_value e)) Ok)
                  (log (Call c (EntryGetValue setting choice) Ok) w)))"
    using change_enum_setting_success[of w c setting _ choice] assms
    by (simp add: gate_ok_def IsAvailable_def IsWritable_def)
  from change_enum_setting_events[OF assms] a b c show ?thesis by blast
qed

theorem C6_enumeration_resolution_witness:
  "fst (change_enum_setting 0 ''TriggerMode'' ''On'' (session [bench_camera ''A'' []] no_faults)) = Inr () \<and>
   trace (snd (change_enum_setting 0 ''TriggerMode'' ''On'' (session [bench_camera ''A'' []] no_faults))) =
     [Call 0 (EntryGetValue ''TriggerMode'' ''On'') Ok, Call 0 (SetIntValue ''TriggerMode'' 1) Ok,
      Print (Msg_set_to ''Trigger Mode'' ''On'')] \<and>
   map_option stored (nodemap (cams (snd (change_enum_setting 0 ''TriggerMode'' ''On''
       (session [bench_camera ''A'' []] no_faults))) 0) ''TriggerMode'') = Some (IntVal 1) \<and>
   snd (change_enum_setting 0 ''TriggerMode'' ''Sideways'' (session [bench_camera ''A'' []] no_faults)) =
     log (Print (Msg_error SpinnakerException)) (session [bench_camera ''A'' []] no_faults) \<and>
   snd (change_enum_setting 0 ''TriggerMode'' ''On'' (session [bare_camera ''A'' []] no_faults)) =
     log (Print (Msg_error SpinnakerException)) (session [bare_camera ''A'' []] no_faults)"
proof -
  let ?w = "session [bench_camera ''A'' []] no_faults"
  let ?v = "session [bare_camera ''A'' []] no_faults"
  have n: "nodemap (cams ?w 0) ''TriggerMode'' = Some (enum_node ''Trigger Mode'' [(''Off'', 0), (''On'', 1)])"
    by (simp add: session_def bench_camera_def bench_nodemap_def)
  have g: "gate_ok ?w 0 ''TriggerMode''"
    by (simp add: gate_ok_def n IsAvailable_def IsWritable_def enum_node_def)
  have e: "entries (enum_node ''Trigger Mode'' [(''Off'', 0), (''On'', 1)]) ''On'' = Some (plain_entry ''On'' 1)"
          "entries (enum_node ''Trigger Mode'' [(''Off'', 0), (''On'', 1)]) ''Sideways'' = None"
    by (simp_all add: enum_node_def)
  have f: "faults ?w = no_faults" "trace ?w = []" by (simp_all add: session_def)
  have 1: "snd (change_enum_setting 0 ''TriggerMode'' ''On'' ?w) =
       log (Print (Msg_set_to ''Trigger Mode'' ''On''))
              (store 0 ''TriggerMode'' (IntVal 1)
                (log (Call 0 (SetIntValue ''TriggerMode'' 1) Ok)
                  (log (Call 0 (EntryGetValue ''TriggerMode'' ''On'') Ok) ?w)))"
    using C6_enumeration_resolution[where c=0 and setting="''TriggerMode''" and choice="''On''" and w="?w", OF prod.collapse[symmetric]] n g e f
    by (simp add: plain_entry_def enum_node_def no_faults_def)
  have 2: "snd (change_enum_setting 0 ''TriggerMode'' ''Sideways'' ?w) =
       log (Print (Msg_error SpinnakerException)) ?w"
    using C6_enumeration_resolution[where c=0 and setting="''TriggerMode''" and choice="''Sideways''" and w="?w", OF prod.collapse[symmetric]] n g e
    by (simp add: IsAvailable_def)
  have 3: "snd (change_enum_setting 0 ''TriggerMode'' ''On'' ?v) = log (Print (Msg_error SpinnakerException)) ?v"
    using C6_enumeration_resolution[where c=0 and setting="''TriggerMode''" and choice="''On''" and w="?v", OF prod.collapse[symmetric]]
    by (simp add: gate_ok_def session_def bare_camera_def IsAvailable_def)
  have 0: "fst (change_enum_setting 0 ''TriggerMode'' ''On'' ?w) = Inr ()"
    using C6_enumeration_resolution[where c=0 and setting="''TriggerMode''" and choice="''On''" and w="?w", OF prod.collapse[symmetric]] by simp
  have 4: "trace (snd (change_enum_setting 0 ''TriggerMode'' ''On'' ?w)) =
     [Call 0 (EntryGetValue ''TriggerMode'' ''On'') Ok, Call 0 (SetIntValue ''TriggerMode'' 1) Ok,
      Print (Msg_set_to ''Trigger Mode'' ''On'')]"
    unfolding 1 by (simp add: f)
  have 5: "map_option stored (nodemap (cams (snd (change_enum_setting 0 ''TriggerMode'' ''On'' ?w)) 0) ''TriggerMode'')
       = Some (IntVal 1)"
    unfolding 1 by (simp add: store_def n log_def)
  from 0 2 3 4 5 show ?thesis by blast
qed



text \<open>
  C10.  \<^verbatim>\<open>configure_camera\<close> never raises; it returns \<^verbatim>\<open>True\<close> whenever its \<^verbatim>\<open>try\<close> body
  completes, whenever no gated driver call of the camera can raise, and in particular when
  every node fails its gate: then the run consists of printed reports only, no node of any
  camera is changed, and the result is still \<^verbatim>\<open>True\<close>.  The result records no per-setting
  failure.
\<close>

theorem C10_configure_result_ignores_skipped_settings:
  assumes "configure_camera c gain w = (r, w')"
  shows "(\<exists>b. r = Inr b) \<and>
    (\<forall>b w1. configure_body c gain w = (Inr b, w1) \<longrightarrow> r = Inr True \<and> w' = w1) \<and>
    ((\<forall>k. config_call w c k \<longrightarrow> \<not> may_raise w c k) \<longrightarrow> r = Inr True) \<and>
    ((\<forall>name. \<not> gate_ok w c name) \<longrightarrow>
       r = Inr True \<and> (\<forall>ev \<in> set (emitted w w'). \<exists>m. ev = Print m) \<and>
       (\<forall>c' name. nodemap (cams w' c') name = nodemap (cams w c') name))"
proof -
  note run = configure_camera_run[OF assms]
  have 2: "\<forall>b w1. configure_body c gain w = (Inr b, w1) \<longrightarrow> r = Inr True \<and> w' = w1"
  proof (intro allI impI)
    fix b w1 assume b: "configure_body c gain w = (Inr b, w1)"
    from configure_body_True[OF b] b assms show "r = Inr True \<and> w' = w1"
      by (simp add: configure_camera_def catchS_def)
  qed
  have 4: "(\<forall>name. \<not> gate_ok w c name) \<longrightarrow>
       r = Inr True \<and> (\<forall>ev \<in> set (emitted w w'). \<exists>m. ev = Print m) \<and>
       (\<forall>c' name. nodemap (cams w' c') name = nodemap (cams w c') name)"
  proof
    assume n: "\<forall>name. \<not> gate_ok w c name"
    then have k: "\<And>k. \<not> config_call w c k" subgoal for k by (cases k) auto done
    then have "r = Inr True" using run(4) by blast
    moreover have p: "\<forall>ev \<in> set (emitted w w'). \<exists>m. ev = Print m"
    proof
      fix ev assume "ev \<in> set (emitted w w')"
      with run(1) have "config_event w c ev" by blast
      with k show "\<exists>m. ev = Print m" by (cases ev) auto
    qed
    moreover have "\<forall>c' name. nodemap (cams w' c') name = nodemap (cams w c') name"
    proof (intro allI)
      fix c' name
      have "\<forall>ev \<in> set (emitted w w'). \<not> is_write c' name ev" using p by auto
      then show "nodemap (cams w' c') name = nodemap (cams w c') name" by (rule run(2))
    qed
    ultimately show "r = Inr True \<and> (\<forall>ev \<in> set (emitted w w'). \<exists>m. ev = Print m) \<and>
       (\<forall>c' name. nodemap (cams w' c') name = nodemap (cams w c') name)" by blast
  qed
  from run(3) run(4) 2 4 show ?thesis by blast
qed

theorem C10_configure_result_ignores_skipped_settings_witness:
  "fst (configure_camera 0 ''3.5'' (session [bare_camera ''A'' []] (unplugged 0))) = Inr True \<and>
   trace (snd (configure_camera 0 ''3.5'' (session [bare_camera ''A'' []] (unplugged 0)))) =
     [Print (Msg_error SpinnakerException), Print (Msg_extent_not_available ''Width''),
      Print (Msg_extent_not_available ''Height''), Print (Msg_error SpinnakerException),
      Print (Msg_error SpinnakerException), Print (Msg_error SpinnakerException),
      Print (Msg_error SpinnakerException), Print Msg_unable_gain_auto_enum,
      Print (Msg_error SpinnakerException)]"
proof -
  let ?w = "session [bare_camera ''A'' []] (unplugged 0)"
  have g: "\<forall>name. \<not> gate_ok ?w 0 name"
    by (simp add: gate_ok_def session_def bare_camera_def IsAvailable_def)
  from C10_configure_result_ignores_skipped_settings[where c=0 and gain="''3.5''" and w="?w",
         OF prod.collapse[symmetric]] g
  have 1: "fst (configure_camera 0 ''3.5'' ?w) = Inr True" by blast
  have 2: "trace (snd (configure_camera 0 ''3.5'' ?w)) =
     [Print (Msg_error SpinnakerException), Print (Msg_extent_not_available ''Width''),
      Print (Msg_extent_not_available ''Height''), Print (Msg_error SpinnakerException),
      Print (Msg_error SpinnakerException), Print (Msg_error SpinnakerException),
      Print (Msg_error SpinnakerException), Print Msg_unable_gain_auto_enum,
      Print (Msg_error SpinnakerException)]"
    by (simp add: eval_defs)
  from 1 2 show ?thesis by blast
qed




text \<open>
  C5 (counterexample).  The claim: when a device's configuration fails, \<^verbatim>\<open>DeInit\<close> is still
  invoked for every device.  The loop of \<^verbatim>\<open>main\<close> that de-initialises the cameras has no handler,
  so the first \<^verbatim>\<open>DeInit\<close> that raises ends it.  With two cameras, of which \<open>A\<close> drops off the bus
  after initialisation, the configuration of \<open>A\<close> fails at the read of the maximum width,
  \<^verbatim>\<open>capture\<close> returns \<^verbatim>\<open>False\<close>, \<^verbatim>\<open>DeInit\<close> raises on \<open>A\<close>, and \<^verbatim>\<open>DeInit\<close> is never invoked on \<open>B\<close>.
\<close>

theorem C5_deinit_skipped_after_failed_deinit:
  "fst (main two_blocks ''/d''
          (session [width_camera ''A'' [good_frame], bare_camera ''B'' [good_frame]] (unplugged 0)))
     = Inl SpinnakerException \<and>
   trace (snd (main two_blocks ''/d''
          (session [width_camera ''A'' [good_frame], bare_camera ''B'' [good_frame]] (unplugged 0)))) =
     [Print (Msg_num_cameras 2), Call 0 Init Ok, Print (Msg_camera 0), Call 1 Init Ok,
      Print (Msg_camera 1), Print Msg_device_information, Call 0 DeviceInformation Ok,
      Print (Msg_configuring ''A''), Call 0 Init Ok, Print (Msg_error SpinnakerException),
      Call 0 (GetMax ''Width'') Raised, Print (Msg_error SpinnakerException),
      Call 0 DeInit Raised]"
  by (simp add: eval_defs)

text \<open>
  C5 (amended).  Let \<^verbatim>\<open>main\<close> have initialised the cameras and let the configuration loop of
  \<^verbatim>\<open>capture\<close> end because \<^verbatim>\<open>configure_camera\<close> returned \<^verbatim>\<open>False\<close> for some device, or because
  a driver call of the loop raised.  Then \<^verbatim>\<open>capture\<close> returns \<^verbatim>\<open>False\<close> without starting the
  acquisition, and the whole run of \<^verbatim>\<open>main\<close> contains no \<^verbatim>\<open>BeginAcquisition\<close> call on any
  device.  If moreover no \<^verbatim>\<open>DeInit\<close> call on a camera of the fleet raises, \<^verbatim>\<open>main\<close> returns
  \<^verbatim>\<open>False\<close>, and after \<^verbatim>\<open>capture\<close> has returned \<^verbatim>\<open>DeInit\<close> is invoked, and returns, for every
  camera of the fleet, the failing one included.
\<close>

theorem C5_failed_configuration_aborts:
  assumes "startup w = (Inr (), w0)"
      and "configure_loop lines [0..<num_cameras w] None True w0 = (rc, w1)"
      and "rc = Inr (Return b) \<or> rc = Inl SpinnakerException"
  shows "\<exists>w2 r w'.
           capture lines directory [0..<num_cameras w] w0 = (Inr False, w2) \<and>
           main lines directory w = (r, w') \<and>
           (\<forall>ev \<in> set (emitted w w'). \<not> is_begin ev) \<and>
           ((\<forall>c < num_cameras w. \<not> may_raise w c DeInit) \<longrightarrow>
              r = Inr False \<and> (\<forall>c < num_cameras w. Call c DeInit Ok \<in> set (emitted w2 w')))"
proof -
  let ?cs = "[0..<num_cameras w]"
  have n: "num_cameras w \<noteq> 0" using assms(2,3) by (cases "num_cameras w") (auto simp: ret_def)
  note s = startup_events[OF assms(1)]
  note l = configure_loop_events[OF assms(2)]
  obtain w2 where c: "capture lines directory ?cs w0 = (Inr False, w2)"
    and w2: "w2 = w1 \<or> w2 = log (Print (Msg_error SpinnakerException)) w1"
  proof (cases "rc = Inl SpinnakerException")
    case True
    with assms(2) have "capture lines directory ?cs w0 = (Inr False, log (Print (Msg_error SpinnakerException)) w1)"
      by (simp add: capture_def catchS_def bnd_def ret_def print_def)
    then show ?thesis using that by blast
  next
    case False
    with assms(3) have "rc = Inr (Return b)" by simp
    with assms(2) have "capture lines directory ?cs w0 = (Inr False, w1)"
      using capture_config_returned by blast
    then show ?thesis using that by blast
  qed
  have e12: "trace w2 = trace w1 @ emitted w1 w2" "static w2 = static w1"
            "\<forall>ev \<in> set (emitted w1 w2). \<exists>m. ev = Print m"
    using w2 by auto
  obtain rd w' where d: "for_each ?cs (\<lambda>c. driver c DeInit) w2 = (rd, w')"
    by (cases "for_each ?cs (\<lambda>c. driver c DeInit) w2")
  let ?r = "case rd of Inl e \<Rightarrow> Inl e | Inr u \<Rightarrow> Inr False"
  have m: "main lines directory w = (?r, w')"
    using c d by (simp add: main_after_startup[OF assms(1) n] bnd_def ret_def split: sum.splits)
  note t = deinit_loop_events[OF d]
  have e1: "emitted w w1 = emitted w w0 @ emitted w0 w1" by (rule emitted_trans[OF s(1) l(1)])
  have tr1: "trace w1 = trace w @ emitted w w1" using s(1) l(1) e1 by simp
  have e2: "emitted w w2 = emitted w w1 @ emitted w1 w2" by (rule emitted_trans[OF tr1 e12(1)])
  have tr2: "trace w2 = trace w @ emitted w w2" using tr1 e12(1) e2 by simp
  have e: "emitted w w' = emitted w w0 @ emitted w0 w1 @ emitted w1 w2 @ emitted w2 w'"
    using emitted_trans[OF tr2 t(1)] e1 e2 by simp
  have nb: "\<forall>ev \<in> set (emitted w w'). \<not> is_begin ev"
  proof
    fix ev assume "ev \<in> set (emitted w w')"
    with e consider "ev \<in> set (emitted w w0)" | "ev \<in> set (emitted w0 w1)"
      | "ev \<in> set (emitted w1 w2)" | "ev \<in> set (emitted w2 w')"
      by auto
    then show "\<not> is_begin ev"
    proof cases
      case 1
      with s(3) show ?thesis by auto
    next
      case 2
      with l(3) setup_event_quiet show ?thesis by blast
    next
      case 3
      with e12(3) show ?thesis by auto
    next
      case 4
      with t(3) show ?thesis by auto
    qed
  qed
  have st: "static w2 = static w" using s(2) l(2) e12(2) by simp
  have ok: "?r = Inr False \<and> (\<forall>c < num_cameras w. Call c DeInit Ok \<in> set (emitted w2 w'))"
    if q: "\<forall>c < num_cameras w. \<not> may_raise w c DeInit"
  proof -
    have "\<forall>c < num_cameras w. \<not> may_raise w2 c DeInit"
      using q faults_static[OF st] by (simp add: may_raise_def)
    with t(4) have "\<exists>u. rd = Inr u" by (cases rd) auto
    then obtain u where u: "rd = Inr u" by blast
    from for_each_driver_ok[OF d[unfolded u]] u show ?thesis by simp
  qed
  from c m nb ok show ?thesis by blast
qed

theorem C5_failed_configuration_aborts_witness:
  "fst (main two_blocks ''/d''
          (session [width_camera ''A'' [good_frame], bare_camera ''B'' [good_frame]]
             (fails_only 0 (GetMax ''Width'')))) = Inr False"
proof -
  define w where "w = session [width_camera ''A'' [good_frame], bare_camera ''B'' [good_frame]]
              (fails_only 0 (GetMax ''Width''))"
  define w0 where "w0 = snd (startup w)"
  define w1 where "w1 = snd (configure_loop two_blocks [0..<num_cameras w] None True w0)"
  have n: "[0..<num_cameras w] = [0, 1]"
    by (simp add: w_def session_def upt_conv_Cons)
  have "fst (startup w) = Inr ()" unfolding w_def by (simp add: eval_defs)
  then have 1: "startup w = (Inr (), w0)" unfolding w0_def by (metis prod.collapse)
  have "fst (configure_loop two_blocks [0, 1] None True (snd (startup w))) = Inr (Return False)"
    unfolding w_def by (simp add: eval_defs)
  then have 2: "configure_loop two_blocks [0..<num_cameras w] None True w0 = (Inr (Return False), w1)"
    unfolding w1_def w0_def n by (metis prod.collapse)
  have 3: "\<forall>c < num_cameras w. \<not> may_raise w c DeInit"
    by (simp add: w_def may_raise_def session_def fails_only_def)
  from C5_failed_configuration_aborts[OF 1 2, of False "''/d''"] 3
  obtain r w' where "main two_blocks ''/d'' w = (r, w')" "r = Inr False" by blast
  then show ?thesis unfolding w_def by simp
qed




end
